theory Spec2Isabelle
  imports
    Main
    "HOL-Library.Word"
    "HOL-Library.Log_Nat"
    "HOL-Library.Product_Lexorder"
    "HOL-Library.Multiset"
    "HOL-Library.AList"
begin

chapter \<open>Konzum unit price sorter: a model of \<open>content.js\<close>\<close>

text \<open>
  The content script reads a page of product cards, extracts the unit price printed on each
  card, and orders the cards by that price. This theory embeds the script function by
  function. Everything the browser provides (the element tree, timers, mutation observers,
  the network) is an explicit part of the state the functions take and return.
\<close>

section \<open>Strings\<close>

text \<open>
  A JavaScript string is a sequence of 16-bit code units. Regular expressions without the
  \<open>u\<close> flag, \<open>includes\<close>, \<open>startsWith\<close> and \<open>trim\<close> all work on code units.
  Identifiers of the markup (tag names, class names, attribute names) are kept as
  \<^typ>\<open>string\<close>; the script only compares them with ASCII literals.
\<close>

type_synonym jsstring = "16 word list"

definition ascii :: "string \<Rightarrow> jsstring" where
  "ascii s = map of_char s"

text \<open>The ASCII upper case of an identifier, which is how an HTML page reports a tag name.\<close>

definition upperCaseChar :: "char \<Rightarrow> char" where
  "upperCaseChar c =
     (let n = of_char c :: nat in if 97 \<le> n \<and> n \<le> 122 then char_of (n - 32) else c)"

definition upperCase :: "string \<Rightarrow> string" where
  "upperCase s = map upperCaseChar s"

definition euro :: "16 word" where
  "euro = 0x20AC"

definition isDigit :: "16 word \<Rightarrow> bool" where
  "isDigit c \<longleftrightarrow> 0x30 \<le> c \<and> c \<le> 0x39"

text \<open>The character class \<open>[,.]\<close>.\<close>

definition isSeparator :: "16 word \<Rightarrow> bool" where
  "isSeparator c \<longleftrightarrow> c = 0x2C \<or> c = 0x2E"

text \<open>
  The class \<open>\s\<close>, which is also what \<open>trim\<close> strips: the WhiteSpace and LineTerminator
  code points of ECMAScript.
\<close>

definition isWhiteSpace :: "16 word \<Rightarrow> bool" where
  "isWhiteSpace c \<longleftrightarrow>
     c \<in> {0x09, 0x0A, 0x0B, 0x0C, 0x0D, 0x20, 0xA0, 0x1680, 0x2028, 0x2029,
          0x202F, 0x205F, 0x3000, 0xFEFF} \<or> (0x2000 \<le> c \<and> c \<le> 0x200A)"

definition startsWith :: "'a list \<Rightarrow> 'a list \<Rightarrow> bool" where
  "startsWith s p \<longleftrightarrow> take (length p) s = p"

fun includesStr :: "'a list \<Rightarrow> 'a list \<Rightarrow> bool" where
  "includesStr [] p \<longleftrightarrow> p = []"
| "includesStr (c # cs) p \<longleftrightarrow> startsWith (c # cs) p \<or> includesStr cs p"

definition trim :: "jsstring \<Rightarrow> jsstring" where
  "trim s = rev (dropWhile isWhiteSpace (rev (dropWhile isWhiteSpace s)))"

text \<open>
  Case folding of the \<open>i\<close> flag. Without the \<open>u\<close> flag a code unit is canonicalised by
  \<open>toUpperCase\<close>, except that a non-ASCII unit never folds to an ASCII one; so an ASCII
  letter of a pattern matches exactly its two ASCII cases.
\<close>

definition canonicalize :: "16 word \<Rightarrow> 16 word" where
  "canonicalize c = (if 0x61 \<le> c \<and> c \<le> 0x7A then c - 0x20 else c)"

definition startsWithIgnoreCase :: "jsstring \<Rightarrow> jsstring \<Rightarrow> bool" where
  "startsWithIgnoreCase s p \<longleftrightarrow>
     map canonicalize (take (length p) s) = map canonicalize p"

text \<open>
  The token \<open>\d+[,.]?\d*\<close> read greedily at the head of a string that starts with a digit:
  the token and the rest of the string. Each of the three parts is followed by a code unit
  it cannot consume and that no later part of the token can consume either, so the backtracking matcher
  of JavaScript finds a match from this position exactly when the greedy reading does.
\<close>

definition numberToken :: "jsstring \<Rightarrow> jsstring \<times> jsstring" where
  "numberToken s =
     (let d1 = takeWhile isDigit s;
          r1 = dropWhile isDigit s;
          sep = (case r1 of [] \<Rightarrow> [] | c # _ \<Rightarrow> if isSeparator c then [c] else []);
          r2 = drop (length sep) r1
      in (d1 @ sep @ takeWhile isDigit r2, dropWhile isDigit r2))"

text \<open>\<open>s.replace(a, b)\<close> with one-unit strings: only the first occurrence is replaced.\<close>

fun replaceFirst :: "16 word \<Rightarrow> 16 word \<Rightarrow> jsstring \<Rightarrow> jsstring" where
  "replaceFirst a b [] = []"
| "replaceFirst a b (c # cs) = (if c = a then b # cs else c # replaceFirst a b cs)"

text \<open>The decimal string of a natural number, as \<open>String(n)\<close> prints an array index.\<close>

function natToString :: "nat \<Rightarrow> string" where
  "natToString n =
     (if n < 10 then [char_of (48 + n)]
      else natToString (n div 10) @ [char_of (48 + n mod 10)])"
  by pat_completeness auto
termination
  by (relation "measure id") auto

declare natToString.simps [simp del]

section \<open>Numbers\<close>

text \<open>
  A JavaScript Number is an IEEE 754 double. The finite ones are kept by their exact
  rational value; there is a single zero, since the script never tells \<open>-0\<close> from \<open>+0\<close>.
\<close>

datatype number = Num rat | PosInfinity | NegInfinity | NaN

definition pow2 :: "int \<Rightarrow> rat" where
  "pow2 k = (if 0 \<le> k then 2 ^ nat k else 1 / 2 ^ nat (- k))"

text \<open>\<open>scale2 a k\<close> is \<open>a * 2 ^ k\<close> for \<open>k \<ge> 0\<close> and \<open>a\<close> otherwise.\<close>

definition scale2 :: "int \<Rightarrow> int \<Rightarrow> int" where
  "scale2 a k = (if 0 \<le> k then a * 2 ^ nat k else a)"

text \<open>The binary exponent of the positive fraction \<open>p / q\<close>: the floor of its logarithm.\<close>

definition floorLog2 :: "int \<Rightarrow> int \<Rightarrow> int" where
  "floorLog2 p q =
     (let k = bitlen p - bitlen q
      in if scale2 q k \<le> scale2 p (- k) then k else k - 1)"

text \<open>The integer nearest to \<open>a / b\<close>, a tie going to the even one.\<close>

definition roundHalfEven :: "int \<Rightarrow> int \<Rightarrow> int" where
  "roundHalfEven a b =
     (let f = a div b; r = a mod b
      in if 2 * r < b then f
         else if b < 2 * r then f + 1
         else if even f then f else f + 1)"

text \<open>
  The Number value for the fraction \<open>p / q\<close> (\<open>p \<ge> 0\<close>, \<open>q > 0\<close>): the nearest double, ties
  to the even significand. The significand has 53 bits, the least exponent of a normal
  double is \<open>-1022\<close>, and a value of at least \<open>2^1024 - 2^970\<close> (half way between the largest
  double and \<open>2^1024\<close>) becomes \<open>+Infinity\<close>.
\<close>

definition roundFraction :: "int \<Rightarrow> int \<Rightarrow> number" where
  "roundFraction p q =
     (if p = 0 then Num 0
      else if (2 ^ 1024 - 2 ^ 970) * q \<le> p then PosInfinity
      else let s = max (floorLog2 p q) (- 1022) - 52
           in Num (of_int (roundHalfEven (scale2 p (- s)) (scale2 q s)) * pow2 s))"

definition isNaN :: "number \<Rightarrow> bool" where
  "isNaN v \<longleftrightarrow> v = NaN"

text \<open>
  Subtraction. The difference of two finite values is kept exact: the script uses a
  difference only as the result of a sort comparator, of which the sort reads the sign, and
  rounding to the nearest double keeps the sign of the difference of two doubles.
\<close>

fun subtract :: "number \<Rightarrow> number \<Rightarrow> number" where
  "subtract NaN _ = NaN"
| "subtract _ NaN = NaN"
| "subtract (Num a) (Num b) = Num (a - b)"
| "subtract (Num _) PosInfinity = NegInfinity"
| "subtract (Num _) NegInfinity = PosInfinity"
| "subtract PosInfinity PosInfinity = NaN"
| "subtract PosInfinity _ = PosInfinity"
| "subtract NegInfinity NegInfinity = NaN"
| "subtract NegInfinity _ = NegInfinity"

text \<open>\<open>v > 0\<close>, and \<open>a <= b\<close>; every comparison with \<open>NaN\<close> is false.\<close>

fun isPositive :: "number \<Rightarrow> bool" where
  "isPositive (Num r) \<longleftrightarrow> 0 < r"
| "isPositive PosInfinity \<longleftrightarrow> True"
| "isPositive _ \<longleftrightarrow> False"

fun lessEq :: "number \<Rightarrow> number \<Rightarrow> bool" where
  "lessEq NaN _ \<longleftrightarrow> False"
| "lessEq _ NaN \<longleftrightarrow> False"
| "lessEq (Num a) (Num b) \<longleftrightarrow> a \<le> b"
| "lessEq NegInfinity _ \<longleftrightarrow> True"
| "lessEq _ PosInfinity \<longleftrightarrow> True"
| "lessEq _ _ \<longleftrightarrow> False"

text \<open>\<open>ToNumber\<close> of a value that is a Number or \<open>null\<close>: \<open>null\<close> converts to \<open>0\<close>.\<close>

fun toNumber :: "number option \<Rightarrow> number" where
  "toNumber None = Num 0"
| "toNumber (Some v) = v"

text \<open>The value of a string of decimal digits.\<close>

definition digitsValue :: "jsstring \<Rightarrow> int" where
  "digitsValue ds = foldl (\<lambda>acc c. 10 * acc + (uint c - 48)) 0 ds"

text \<open>
  \<open>parseFloat\<close> on a string made of digits and dots, which is all the script passes to it:
  the longest prefix \<open>digits [. digits]\<close> or \<open>. digits\<close> is read and rounded; a string with
  no such prefix gives \<open>NaN\<close>. (Signs, exponents, leading white space and \<open>Infinity\<close>, which
  \<open>parseFloat\<close> also reads, cannot occur in such a string.) JavaScriptCore, like the other
  engines, rounds the decimal value correctly.
\<close>

definition parseFloat :: "jsstring \<Rightarrow> number" where
  "parseFloat s =
     (let ip = takeWhile isDigit s;
          r = dropWhile isDigit s;
          fp = (case r of [] \<Rightarrow> [] | c # r' \<Rightarrow> if c = 0x2E then takeWhile isDigit r' else [])
      in if ip = [] \<and> fp = [] then NaN
         else roundFraction (digitsValue (ip @ fp)) (10 ^ length fp))"

section \<open>The price extractor\<close>

text \<open>
  \<open>priceText.match(/(\d+[,.]?\d*)/)\<close>: the leftmost match starts at the first digit of the
  text; the result is the captured group, or \<open>None\<close> for \<open>null\<close>.
\<close>

definition matchNumber :: "jsstring \<Rightarrow> jsstring option" where
  "matchNumber s =
     (case dropWhile (\<lambda>c. \<not> isDigit c) s of
        [] \<Rightarrow> None
      | r \<Rightarrow> Some (fst (numberToken r)))"

text \<open>
  \<open>parseUnitPrice\<close>. The argument is a string or absent (\<open>null\<close>, \<open>undefined\<close>); the result
  is a Number or \<open>null\<close>. No statement of the function can throw on such an argument.
\<close>

definition parseUnitPrice :: "jsstring option \<Rightarrow> number option" where
  "parseUnitPrice priceText =
     (case priceText of
        None \<Rightarrow> None
      | Some t \<Rightarrow>
          if t = [] then None
          else (case matchNumber t of
                  None \<Rightarrow> None
                | Some m \<Rightarrow>
                    let price = parseFloat (replaceFirst 0x2C 0x2E m)
                    in if isNaN price then None else Some price))"

section \<open>The sort engine\<close>

text \<open>
  Elements of the page are referred to by identity. A product of the local sort is the
  object literal \<open>{element, unitPrice, originalIndex}\<close> built in \<open>sortByUnitPrice\<close>. The
  products of the global sort have a \<open>unitPrice\<close> too, so that field comes first.
\<close>

type_synonym eid = nat

record priced =
  unitPrice :: "number option"

record product = priced +
  element :: eid
  originalIndex :: nat

text \<open>
  The expression \<open>ascending ? a.unitPrice - b.unitPrice : b.unitPrice - a.unitPrice\<close>, which
  both sorts end with.
\<close>

definition byUnitPrice :: "bool \<Rightarrow> number option \<Rightarrow> number option \<Rightarrow> number" where
  "byUnitPrice ascending a b =
     (if ascending then subtract (toNumber a) (toNumber b)
      else subtract (toNumber b) (toNumber a))"

text \<open>The comparator of \<open>products.sort\<close> in \<open>sortByUnitPrice\<close>.\<close>

definition compareProducts ::
  "bool \<Rightarrow> 'a priced_scheme \<Rightarrow> 'a priced_scheme \<Rightarrow> number" where
  "compareProducts ascending a b =
     (if unitPrice a = None \<and> unitPrice b = None then Num 0
      else if unitPrice a = None then Num 1
      else if unitPrice b = None then Num (- 1)
      else byUnitPrice ascending (unitPrice a) (unitPrice b))"

text \<open>
  \<open>Array.prototype.sort\<close> with a comparator. ECMAScript leaves the algorithm to the engine
  but requires the sort to be stable, and reads a comparator result \<open>v\<close> as follows: \<open>a\<close>
  goes after \<open>b\<close> when \<open>v > 0\<close>, before it when \<open>v < 0\<close>, and the two count as equal otherwise
  (also when \<open>v\<close> is \<open>NaN\<close>). For a consistent comparator the result is thereby determined.
  The model is an insertion sort that puts each element before the first later element it
  is not greater than.
\<close>

fun insertSorted :: "('a \<Rightarrow> 'a \<Rightarrow> number) \<Rightarrow> 'a \<Rightarrow> 'a list \<Rightarrow> 'a list" where
  "insertSorted cmp x [] = [x]"
| "insertSorted cmp x (y # ys) =
     (if isPositive (cmp x y) then y # insertSorted cmp x ys else x # y # ys)"

definition arraySort :: "('a \<Rightarrow> 'a \<Rightarrow> number) \<Rightarrow> 'a list \<Rightarrow> 'a list" where
  "arraySort cmp xs = foldr (insertSorted cmp) xs []"

text \<open>The sort step of \<open>sortByUnitPrice\<close>.\<close>

definition sortProducts :: "bool \<Rightarrow> product list \<Rightarrow> product list" where
  "sortProducts ascending products = arraySort (compareProducts ascending) products"




section \<open>The element tree\<close>

text \<open>
  The page is a tree of elements and text nodes. An element carries what the script reads
  and writes: whether it is an HTML or an SVG element, its tag name, its class list, its
  other attributes, the declarations of its inline style (property, value, \<open>!important\<close>),
  and the value of the \<open>order\<close> property that the style sheets of the page itself give it,
  which is its computed value when neither an important inline declaration nor a rule
  injected by the script overrides it. An attribute value is a string;
  \<open>StringOf v\<close> stands for the decimal text \<open>String(v)\<close> of a Number, which the script writes
  but never reads back.

  \<open>tagName\<close> is what the property of that name reports: in an HTML page the name of an HTML
  element in upper case, and the name of an SVG element as it is written, \<open>svg\<close>, \<open>a\<close> or
  \<open>foreignObject\<close>. The two kinds of element differ in one more respect that matters to the
  script: the property \<open>className\<close> of an HTML element is a string, that of an SVG element
  is an \<open>SVGAnimatedString\<close> object.
\<close>

datatype domString = Str string | StringOf number

datatype namespace = HTML | SVG

record element =
  namespace :: namespace
  tagName :: string
  classList :: "string list"
  attributes :: "(string \<times> domString) list"
  style :: "(string \<times> string \<times> bool) list"
  cascadedOrder :: string

datatype node = TextNode jsstring | Element eid element "node list"

fun textContent :: "node \<Rightarrow> jsstring" where
  "textContent (TextNode t) = t"
| "textContent (Element i e cs) = concat (map textContent cs)"

text \<open>
  The elements of a tree in document order, each with its child nodes and its chain of
  ancestors, the parent first.
\<close>

type_synonym entry = "eid \<times> element \<times> node list \<times> (eid \<times> element) list"

fun walk :: "(eid \<times> element) list \<Rightarrow> node \<Rightarrow> entry list" where
  "walk ancestors (TextNode t) = []"
| "walk ancestors (Element i e cs) =
     (i, e, cs, ancestors) # concat (map (walk ((i, e) # ancestors)) cs)"

definition entryOf :: "node \<Rightarrow> eid \<Rightarrow> entry option" where
  "entryOf d i = find (\<lambda>en. fst en = i) (walk [] d)"

definition elementOf :: "node \<Rightarrow> eid \<Rightarrow> element option" where
  "elementOf d i = map_option (\<lambda>(_, e, _, _). e) (entryOf d i)"

definition parentElement :: "node \<Rightarrow> eid \<Rightarrow> eid option" where
  "parentElement d i =
     (case entryOf d i of
        Some (_, _, _, (p, _) # _) \<Rightarrow> Some p
      | _ \<Rightarrow> None)"

definition textContentOf :: "node \<Rightarrow> eid \<Rightarrow> jsstring" where
  "textContentOf d i =
     (case entryOf d i of
        Some (_, _, cs, _) \<Rightarrow> concat (map textContent cs)
      | None \<Rightarrow> [])"

fun elementIds :: "node list \<Rightarrow> eid list" where
  "elementIds [] = []"
| "elementIds (TextNode t # ns) = elementIds ns"
| "elementIds (Element i e cs # ns) = i # elementIds ns"

text \<open>\<open>container.children\<close>: the child elements.\<close>

definition children :: "node \<Rightarrow> eid \<Rightarrow> eid list" where
  "children d i =
     (case entryOf d i of
        Some (_, _, cs, _) \<Rightarrow> elementIds cs
      | None \<Rightarrow> [])"

text \<open>
  The \<open>class\<close> attribute: the classes separated by single spaces. (The script searches it
  only for patterns without white space, so the amount of white space in the attribute of
  a real page makes no difference.) It is the value of the property \<open>className\<close> of an HTML
  element.
\<close>

fun joinClasses :: "string list \<Rightarrow> string" where
  "joinClasses [] = []"
| "joinClasses [c] = c"
| "joinClasses (c # cs) = c @ '' '' @ joinClasses cs"

definition className :: "element \<Rightarrow> string" where
  "className e = joinClasses (classList e)"

subsection \<open>Selectors\<close>

text \<open>
  The selectors of the script are comma lists of compound selectors, some with one
  descendant combinator. A type selector is written in lower case, as in the script; it
  matches the HTML elements of that name, whose \<open>tagName\<close> is the name in upper case, and
  the SVG elements whose name is written exactly so. \<open>ClassContains x\<close> is \<open>[class*="x"]\<close>,
  \<open>AttributeContains a x\<close> is \<open>[a*="x"]\<close> for another attribute; both read the attribute,
  which is a string for every kind of element.
\<close>

datatype simpleSelector =
    Tag string
  | Class string
  | HasAttribute string
  | AttributeContains string string
  | ClassContains string

datatype complexSelector =
    Compound "simpleSelector list"
  | Descendant "simpleSelector list" "simpleSelector list"

type_synonym selector = "complexSelector list"

fun matchesSimple :: "element \<Rightarrow> simpleSelector \<Rightarrow> bool" where
  "matchesSimple e (Tag t) \<longleftrightarrow>
     tagName e = (case namespace e of HTML \<Rightarrow> upperCase t | SVG \<Rightarrow> t)"
| "matchesSimple e (Class c) \<longleftrightarrow> c \<in> set (classList e)"
| "matchesSimple e (HasAttribute a) \<longleftrightarrow> map_of (attributes e) a \<noteq> None"
| "matchesSimple e (AttributeContains a x) \<longleftrightarrow>
     (case map_of (attributes e) a of Some (Str v) \<Rightarrow> includesStr v x | _ \<Rightarrow> False)"
| "matchesSimple e (ClassContains x) \<longleftrightarrow> includesStr (className e) x"

definition matchesCompound :: "element \<Rightarrow> simpleSelector list \<Rightarrow> bool" where
  "matchesCompound e c \<longleftrightarrow> list_all (matchesSimple e) c"

fun matchesComplex :: "entry \<Rightarrow> complexSelector \<Rightarrow> bool" where
  "matchesComplex (i, e, cs, ancestors) (Compound c) \<longleftrightarrow> matchesCompound e c"
| "matchesComplex (i, e, cs, ancestors) (Descendant a c) \<longleftrightarrow>
     matchesCompound e c \<and> list_ex (\<lambda>(j, f). matchesCompound f a) ancestors"

definition matches :: "entry \<Rightarrow> selector \<Rightarrow> bool" where
  "matches en sel \<longleftrightarrow> list_ex (matchesComplex en) sel"

definition querySelectorAll :: "node \<Rightarrow> selector \<Rightarrow> eid list" where
  "querySelectorAll d sel = map fst (filter (\<lambda>en. matches en sel) (walk [] d))"

definition querySelector :: "node \<Rightarrow> selector \<Rightarrow> eid option" where
  "querySelector d sel =
     (case querySelectorAll d sel of [] \<Rightarrow> None | i # _ \<Rightarrow> Some i)"

text \<open>\<open>scope.querySelectorAll(sel)\<close>: the matching descendants of the element \<open>scope\<close>.\<close>

definition querySelectorAllIn :: "node \<Rightarrow> eid \<Rightarrow> selector \<Rightarrow> eid list" where
  "querySelectorAllIn d scope sel =
     map fst (filter (\<lambda>(i, e, cs, ancestors). scope \<in> fst ` set ancestors \<and>
                        matches (i, e, cs, ancestors) sel) (walk [] d))"

subsection \<open>Writing to elements\<close>

fun mapElements :: "(eid \<Rightarrow> element \<Rightarrow> element) \<Rightarrow> node \<Rightarrow> node" where
  "mapElements f (TextNode t) = TextNode t"
| "mapElements f (Element i e cs) = Element i (f i e) (map (mapElements f) cs)"

definition updateElement :: "eid \<Rightarrow> (element \<Rightarrow> element) \<Rightarrow> node \<Rightarrow> node" where
  "updateElement i f d = mapElements (\<lambda>j e. if j = i then f e else e) d"

text \<open>\<open>classList.add\<close> and \<open>classList.remove\<close>.\<close>

definition addClass :: "string \<Rightarrow> element \<Rightarrow> element" where
  "addClass c e = (if c \<in> set (classList e) then e else e\<lparr>classList := classList e @ [c]\<rparr>)"

definition removeClass :: "string \<Rightarrow> element \<Rightarrow> element" where
  "removeClass c e = e\<lparr>classList := removeAll c (classList e)\<rparr>"

text \<open>\<open>setAttribute\<close>, \<open>getAttribute\<close> and \<open>hasAttribute\<close>.\<close>

definition setAttribute :: "string \<Rightarrow> domString \<Rightarrow> element \<Rightarrow> element" where
  "setAttribute a v e = e\<lparr>attributes := AList.update a v (attributes e)\<rparr>"

definition getAttribute :: "element \<Rightarrow> string \<Rightarrow> domString option" where
  "getAttribute e a = map_of (attributes e) a"

text \<open>
  \<open>style.setProperty(p, v, priority)\<close>, and reading \<open>style.p\<close>, which is the empty string
  for a property that is not declared.
\<close>

definition setProperty :: "string \<Rightarrow> string \<Rightarrow> bool \<Rightarrow> element \<Rightarrow> element" where
  "setProperty p v important e = e\<lparr>style := AList.update p (v, important) (style e)\<rparr>"

definition getPropertyValue :: "element \<Rightarrow> string \<Rightarrow> string" where
  "getPropertyValue e p = (case map_of (style e) p of None \<Rightarrow> [] | Some (v, _) \<Rightarrow> v)"

text \<open>
  \<open>window.getComputedStyle(card).order\<close>, given the rules \<open>.c { order: n !important; }\<close> that
  the script has injected: an important inline declaration wins over every style sheet;
  otherwise the last injected rule for a class of the element decides (the rules are
  important and equally specific, and their sheet comes last); otherwise the style sheets
  of the page itself decide, which are taken to declare \<open>order\<close> without \<open>!important\<close>.
\<close>

definition computedOrder :: "(string \<times> nat) list \<Rightarrow> element \<Rightarrow> string" where
  "computedOrder rules e =
     (case map_of (style e) ''order'' of
        Some (v, True) \<Rightarrow> v
      | _ \<Rightarrow>
          (case filter (\<lambda>(c, n). c \<in> set (classList e)) rules of
             [] \<Rightarrow> cascadedOrder e
           | r # rs \<Rightarrow> natToString (snd (last (r # rs)))))"

text \<open>Removing the subtrees of the given elements, and appending a child to an element.\<close>

fun removeElements :: "eid list \<Rightarrow> node \<Rightarrow> node" where
  "removeElements is (TextNode t) = TextNode t"
| "removeElements is (Element i e cs) =
     Element i e (map (removeElements is)
       (filter (\<lambda>c. case c of TextNode _ \<Rightarrow> True | Element j _ _ \<Rightarrow> j \<notin> set is) cs))"

fun appendChild :: "eid \<Rightarrow> node \<Rightarrow> node \<Rightarrow> node" where
  "appendChild parent child (TextNode t) = TextNode t"
| "appendChild parent child (Element i e cs) =
     (if i = parent then Element i e (cs @ [child])
      else Element i e (map (appendChild parent child) cs))"

text \<open>
  A copy of a subtree whose elements get new identities: the element numbered \<open>k\<close> in
  document order gets the identity \<open>base + k\<close>.
\<close>

fun countElements :: "node \<Rightarrow> nat" where
  "countElements (TextNode t) = 0"
| "countElements (Element i e cs) = Suc (sum_list (map countElements cs))"

fun renumber :: "nat \<Rightarrow> node \<Rightarrow> node"
  and renumberAll :: "nat \<Rightarrow> node list \<Rightarrow> node list" where
  "renumber base (TextNode t) = TextNode t"
| "renumber base (Element i e cs) = Element base e (renumberAll (Suc base) cs)"
| "renumberAll base [] = []"
| "renumberAll base (c # cs) = renumber base c # renumberAll (base + countElements c) cs"

section \<open>Finding the product cards\<close>

text \<open>
  The exception that the locator raises on some pages: \<open>current.className.includes(...)\<close>
  calls the method \<open>includes\<close> of a string. On an SVG element \<open>className\<close> is an
  \<open>SVGAnimatedString\<close>, which has no such method, and the call throws a \<open>TypeError\<close>.
\<close>

datatype error = TypeError

definition classNameIncludes :: "element \<Rightarrow> string \<Rightarrow> error + bool" where
  "classNameIncludes e x =
     (case namespace e of
        HTML \<Rightarrow> Inr (includesStr (className e) x)
      | SVG \<Rightarrow> Inl TypeError)"

text \<open>
  The upward walk from a product link: at most ten parents are visited, and the first that
  is an \<open>article\<close>, or has the class \<open>product-item\<close> or \<open>product-card\<close>, or whose class
  attribute contains \<open>product-default\<close>, is the candidate. The four tests are joined by
  \<open>||\<close>, so \<open>className\<close> is read only when the first three fail; reading it of an SVG
  parent ends the walk, and \<open>getProductCards\<close> with it, by the exception.
\<close>

definition isCardContainer :: "node \<Rightarrow> eid \<Rightarrow> error + bool" where
  "isCardContainer d i =
     (case elementOf d i of
        None \<Rightarrow> Inr False
      | Some e \<Rightarrow>
          if tagName e = ''ARTICLE'' \<or> ''product-item'' \<in> set (classList e) \<or>
             ''product-card'' \<in> set (classList e)
          then Inr True
          else classNameIncludes e ''product-default'')"

fun findCandidate :: "node \<Rightarrow> nat \<Rightarrow> eid \<Rightarrow> error + eid option" where
  "findCandidate d 0 current = Inr None"
| "findCandidate d (Suc n) current =
     (case parentElement d current of
        None \<Rightarrow> Inr None
      | Some p \<Rightarrow>
          (case isCardContainer d p of
             Inl err \<Rightarrow> Inl err
           | Inr True \<Rightarrow> Inr (Some p)
           | Inr False \<Rightarrow> findCandidate d n p))"

text \<open>The loop over the product links; \<open>cards\<close> doubles as the set \<open>seenElements\<close>.\<close>

fun cardsOfLinks :: "node \<Rightarrow> eid list \<Rightarrow> eid list \<Rightarrow> error + eid list" where
  "cardsOfLinks d cards [] = Inr cards"
| "cardsOfLinks d cards (link # links) =
     (case findCandidate d 10 link of
        Inl err \<Rightarrow> Inl err
      | Inr None \<Rightarrow> cardsOfLinks d cards links
      | Inr (Some candidate) \<Rightarrow>
          if candidate \<in> set cards then cardsOfLinks d cards links
          else cardsOfLinks d (cards @ [candidate]) links)"

text \<open>
  The loop over the fallback selectors: the first selector that matches anything and whose
  first match shows a price marker in its text wins.
\<close>

fun firstPricedSelector :: "node \<Rightarrow> selector list \<Rightarrow> eid list option" where
  "firstPricedSelector d [] = None"
| "firstPricedSelector d (sel # sels) =
     (case querySelectorAll d sel of
        [] \<Rightarrow> firstPricedSelector d sels
      | c # cs \<Rightarrow>
          if includesStr (textContentOf d c) [euro] \<or>
             includesStr (textContentOf d c) (ascii ''Cijena'')
          then Some (c # cs)
          else firstPricedSelector d sels)"

text \<open>
  The loop over the grid and list containers: the first with more than three child
  elements, the first of which shows the currency sign, wins.
\<close>

fun firstPricedContainer :: "node \<Rightarrow> eid list \<Rightarrow> eid list option" where
  "firstPricedContainer d [] = None"
| "firstPricedContainer d (container # containers) =
     (case children d container of
        [] \<Rightarrow> firstPricedContainer d containers
      | c # cs \<Rightarrow>
          if 3 < length (c # cs) \<and> includesStr (textContentOf d c) [euro] then Some (c # cs)
          else firstPricedContainer d containers)"

definition fallbackSelectors :: "selector list" where
  "fallbackSelectors =
     [[Compound [Class ''product-card'']],
      [Compound [HasAttribute ''data-product'']],
      [Compound [Class ''product-item'']],
      [Compound [Tag ''article'', Class ''product'']],
      [Compound [Class ''product'']],
      [Compound [ClassContains ''ProductCard'']],
      [Compound [ClassContains ''product-'']]]"

definition containerSelector :: selector where
  "containerSelector =
     [Compound [ClassContains ''grid''], Compound [ClassContains ''list''],
      Compound [ClassContains ''results''], Compound [ClassContains ''Grid''],
      Compound [ClassContains ''List'']]"

text \<open>
  \<open>getProductCards\<close>, on the tree \<open>d\<close>: the cards it returns, or the exception it ends
  with. The strategies after the product links are reached when there is no product link
  or when no walk found a candidate.
\<close>

definition laterStrategies :: "node \<Rightarrow> eid list" where
  "laterStrategies d =
     (case firstPricedSelector d fallbackSelectors of
        Some cards \<Rightarrow> cards
      | None \<Rightarrow>
          (case firstPricedContainer d (querySelectorAll d containerSelector) of
             Some cs \<Rightarrow> cs
           | None \<Rightarrow> []))"

definition getProductCards :: "node \<Rightarrow> error + eid list" where
  "getProductCards d =
     (let productItems = querySelectorAll d [Compound [Tag ''article'', Class ''product-item'']]
      in if 3 < length productItems then Inr productItems
      else
        let altItems = querySelectorAll d
              [Compound [Class ''product-item''], Compound [Class ''product-card'']]
        in if 3 < length altItems then Inr altItems
        else
          let productLinks = querySelectorAll d
                [Compound [Tag ''a'', AttributeContains ''href'' ''/web/products/'']]
          in case cardsOfLinks d [] productLinks of
               Inl err \<Rightarrow> Inl err
             | Inr cards \<Rightarrow>
                 if productLinks \<noteq> [] \<and> cards \<noteq> [] then Inr cards
                 else Inr (laterStrategies d))"

section \<open>Reading the unit price of a card\<close>

text \<open>
  \<open>text.match(/Cijena za j\.m\.:?\s*(\d+[,.]?\d*)\s*\<euro>/i)\<close>. \<open>labelledPriceAt s\<close> matches
  the expression at the head of \<open>s\<close>; \<open>matchLabelledPrice\<close> tries the positions from left to
  right and gives the captured group of the first match. The parts of the expression are
  read greedily, which finds a match whenever backtracking would: the optional colon, the
  white space, the digits, the separator and the currency sign are pairwise disjoint
  classes, so giving back a unit never lets the next part go on.
\<close>

definition euroAfterSpace :: "jsstring \<Rightarrow> bool" where
  "euroAfterSpace s \<longleftrightarrow> startsWith (dropWhile isWhiteSpace s) [euro]"

definition priceBeforeEuroAt :: "jsstring \<Rightarrow> jsstring option" where
  "priceBeforeEuroAt s =
     (case s of
        [] \<Rightarrow> None
      | c # _ \<Rightarrow>
          if isDigit c \<and> euroAfterSpace (snd (numberToken s)) then Some (fst (numberToken s))
          else None)"

definition labelledPriceAt :: "jsstring \<Rightarrow> jsstring option" where
  "labelledPriceAt s =
     (if startsWithIgnoreCase s (ascii ''Cijena za j.m.'') then
        let r = drop (length (ascii ''Cijena za j.m.'')) s;
            r' = (case r of [] \<Rightarrow> [] | c # cs \<Rightarrow> if c = 0x3A then cs else c # cs)
        in priceBeforeEuroAt (dropWhile isWhiteSpace r')
      else None)"

fun matchLabelledPrice :: "jsstring \<Rightarrow> jsstring option" where
  "matchLabelledPrice [] = None"
| "matchLabelledPrice (c # cs) =
     (case labelledPriceAt (c # cs) of
        Some m \<Rightarrow> Some m
      | None \<Rightarrow> matchLabelledPrice cs)"

text \<open>\<open>elemText.match(/(\d+[,.]?\d*)\s*\<euro>/)\<close>, in the same way.\<close>

fun matchPriceBeforeEuro :: "jsstring \<Rightarrow> jsstring option" where
  "matchPriceBeforeEuro [] = None"
| "matchPriceBeforeEuro (c # cs) =
     (case priceBeforeEuroAt (c # cs) of
        Some m \<Rightarrow> Some m
      | None \<Rightarrow> matchPriceBeforeEuro cs)"

definition priceElementSelector :: selector where
  "priceElementSelector =
     [Compound [ClassContains ''unit''], Compound [ClassContains ''j.m.''],
      Compound [Tag ''small''], Compound [Class ''price-info''],
      Compound [Tag ''span''], Compound [Tag ''div'']]"

text \<open>The loop over the candidate price elements inside a card.\<close>

fun firstElementPrice :: "node \<Rightarrow> eid list \<Rightarrow> number option" where
  "firstElementPrice d [] = None"
| "firstElementPrice d (elem # elems) =
     (if includesStr (textContentOf d elem) (ascii ''j.m.'') then
        (case matchPriceBeforeEuro (textContentOf d elem) of
           None \<Rightarrow> firstElementPrice d elems
         | Some m \<Rightarrow>
             (case parseUnitPrice (Some m) of
                None \<Rightarrow> firstElementPrice d elems
              | Some price \<Rightarrow> Some price))
      else firstElementPrice d elems)"

definition extractUnitPrice :: "node \<Rightarrow> eid \<Rightarrow> number option" where
  "extractUnitPrice d c =
     (case matchLabelledPrice (textContentOf d c) of
        Some m \<Rightarrow> parseUnitPrice (Some m)
      | None \<Rightarrow> firstElementPrice d (querySelectorAllIn d c priceElementSelector))"

section \<open>The state of the script and of its host\<close>

text \<open>
  \<open>currentSortState\<close> is the object \<open>{ascending, global}\<close>. A product of the global sort is
  the object \<open>{element, unitPrice, page, name, html}\<close>; its \<open>element\<close> field is called
  \<open>liveElement\<close> here, and \<open>html\<close>, the serialised card, is kept as the subtree it
  serialises.
\<close>

record sortState =
  ascending :: bool
  global :: bool

type_synonym snapshot = "eid \<times> element \<times> node list"

record pageProduct = priced +
  liveElement :: "eid option"
  page :: nat
  name :: jsstring
  html :: snapshot

text \<open>
  What the user gets to see, what goes over the network, and what the host is left with when
  an exception leaves a task of the script. The messages are the Croatian texts of the
  script: nothing found on the page (with the advice to reload), nothing found on any page,
  all pages are being loaded, all \<open>n\<close> products are shown in the given direction, and
  the page is sorted in the given direction. \<open>Uncaught err\<close> is an exception that no
  handler of the script catches: the task in which it was thrown ends there, and the host
  reports the error (as an uncaught exception of a timer callback, or as the unhandled
  rejection of the promise of an \<open>async\<close> function); the user is shown nothing.
\<close>

datatype message =
    NothingToSortReload
  | NothingToSort
  | LoadingAllPages
  | ShownAll nat bool
  | SortedByUnitPrice bool

datatype effect = Alert message | Notification message | Fetch nat | Uncaught error

text \<open>
  The state: the tree of the page, the module variables of the script (\<open>currentSortState\<close>,
  \<open>allProductsData\<close>, \<open>sortMaintainerInterval\<close>, \<open>containerObserver\<close>), the rules of the
  injected style element \<open>konzum-sort-styles\<close> if there is one, and the host's side: the
  running interval timers and the connected mutation observers of the sort maintainer
  (each a handle with the container its callback is about), the number of pending re-sort
  timeouts, the next free handle and element identity, the log of effects, and the pages
  the network serves (a page number without an entry fails to load).
\<close>

record state =
  document :: node
  currentSortState :: "sortState option"
  allProductsData :: "pageProduct list"
  sortMaintainerInterval :: "nat option"
  containerObserver :: "nat option"
  sortStyles :: "(string \<times> nat) list option"
  intervals :: "(nat \<times> eid) list"
  observers :: "(nat \<times> eid) list"
  timeouts :: nat
  nextHandle :: nat
  nextId :: nat
  effects :: "effect list"
  network :: "(nat \<times> node) list"

definition alert :: "message \<Rightarrow> state \<Rightarrow> state" where
  "alert m st = st\<lparr>effects := effects st @ [Alert m]\<rparr>"

text \<open>An exception leaves the running task.\<close>

definition throw :: "error \<Rightarrow> state \<Rightarrow> state" where
  "throw err st = st\<lparr>effects := effects st @ [Uncaught err]\<rparr>"

text \<open>
  \<open>showNotification\<close> shows a fixed-position box for about two seconds. The box is recorded
  as an effect; it is not made a node of the tree.
\<close>

definition showNotification :: "message \<Rightarrow> state \<Rightarrow> state" where
  "showNotification m st = st\<lparr>effects := effects st @ [Notification m]\<rparr>"

text \<open>
  \<open>injectSortStyles\<close> removes the old style element and appends a new one with the given
  rules; a rule \<open>.c { order: n !important; }\<close> is the pair \<open>(c, n)\<close>.
\<close>

definition injectSortStyles :: "(string \<times> nat) list \<Rightarrow> state \<Rightarrow> state" where
  "injectSortStyles cssRules st = st\<lparr>sortStyles := Some cssRules\<rparr>"

section \<open>The sort maintainer\<close>

definition clearInterval :: "nat \<Rightarrow> state \<Rightarrow> state" where
  "clearInterval h st = st\<lparr>intervals := filter (\<lambda>(k, c). k \<noteq> h) (intervals st)\<rparr>"

definition disconnect :: "nat \<Rightarrow> state \<Rightarrow> state" where
  "disconnect h st = st\<lparr>observers := filter (\<lambda>(k, c). k \<noteq> h) (observers st)\<rparr>"

text \<open>
  \<open>setupSortMaintainer\<close>: the old timer and observer are stopped, then a new observer
  watches the child list of the container and a new timer fires every 200 ms. (A timer
  handle is a positive number, so the test \<open>if (sortMaintainerInterval)\<close> is the test for a
  stored handle.)
\<close>

definition setupSortMaintainer :: "eid \<Rightarrow> state \<Rightarrow> state" where
  "setupSortMaintainer container st =
     (let st1 = (case sortMaintainerInterval st of
                   Some h \<Rightarrow> clearInterval h st
                 | None \<Rightarrow> st);
          st2 = (case containerObserver st1 of
                   Some h \<Rightarrow> disconnect h st1
                 | None \<Rightarrow> st1);
          ob = nextHandle st2;
          st3 = st2\<lparr>containerObserver := Some ob,
                    observers := observers st2 @ [(ob, container)],
                    nextHandle := Suc ob\<rparr>;
          tm = nextHandle st3
      in st3\<lparr>sortMaintainerInterval := Some tm,
              intervals := intervals st3 @ [(tm, container)],
              nextHandle := Suc tm\<rparr>)"

section \<open>The local sort\<close>

text \<open>The three tests that make the container a wrapping flex row.\<close>

definition ensureFlex :: "element \<Rightarrow> element" where
  "ensureFlex e =
     (let e1 = (if getPropertyValue e ''display'' = [] \<or> getPropertyValue e ''display'' \<noteq> ''flex''
                then setProperty ''display'' ''flex'' False e else e);
          e2 = (if getPropertyValue e1 ''flex-wrap'' = []
                then setProperty ''flex-wrap'' ''wrap'' False e1 else e1)
      in if getPropertyValue e2 ''flex-direction'' = []
         then setProperty ''flex-direction'' ''row'' False e2 else e2)"

definition sortClass :: "nat \<Rightarrow> string" where
  "sortClass newIndex = ''konzum-sort-'' @ natToString newIndex"

text \<open>
  \<open>product.unitPrice || 'none'\<close>: \<open>null\<close>, \<open>0\<close> and \<open>NaN\<close> are falsy.
\<close>

definition unitPriceAttribute :: "number option \<Rightarrow> domString" where
  "unitPriceAttribute p =
     (case p of
        None \<Rightarrow> Str ''none''
      | Some v \<Rightarrow> if v = Num 0 \<or> v = NaN then Str ''none'' else StringOf v)"

text \<open>What the body of \<open>products.forEach\<close> writes to the element of a product.\<close>

definition markSorted :: "nat \<Rightarrow> number option \<Rightarrow> element \<Rightarrow> element" where
  "markSorted newIndex price e =
     setAttribute ''data-unit-price'' (unitPriceAttribute price)
       (setAttribute ''data-sort-order'' (Str (natToString newIndex))
         (setProperty ''order'' (natToString newIndex) True
           (addClass ''konzum-sorted'' (addClass (sortClass newIndex) e))))"

text \<open>
  One round of \<open>products.forEach\<close>: an element that is not a child of the container is
  skipped, and gets no rule.
\<close>

definition applyRank ::
  "eid \<Rightarrow> product \<times> nat \<Rightarrow> node \<times> (string \<times> nat) list \<Rightarrow> node \<times> (string \<times> nat) list" where
  "applyRank container = (\<lambda>(p, newIndex) (d, cssRules).
     if parentElement d (element p) \<noteq> Some container then (d, cssRules)
     else (updateElement (element p) (markSorted newIndex (unitPrice p)) d,
           cssRules @ [(sortClass newIndex, newIndex)]))"

text \<open>\<open>cards.map((card, index) => ...)\<close>.\<close>

definition extractProducts :: "node \<Rightarrow> eid list \<Rightarrow> product list" where
  "extractProducts d cards =
     map (\<lambda>(c, index). \<lparr>unitPrice = extractUnitPrice d c, element = c, originalIndex = index\<rparr>)
       (zip cards [0..<length cards])"

text \<open>
  \<open>sortByUnitPrice\<close>. Logging is switched off in the script (\<open>DEBUG\<close> is \<open>false\<close>), so the
  calls of \<open>log\<close> are left out; none of the values computed for them can raise an exception.

  The function has no \<open>try\<close>: an exception of \<open>getProductCards\<close> leaves it, after the sort
  state has been set. Every call of the function in the script is the last statement of its
  caller (\<open>sortByUnitPriceGlobally\<close>, the interval callback and the timeout callback of the
  sort maintainer, the click and URL change callbacks) and none is inside a \<open>try\<close>, so the
  exception ends the task. The state this function returns is the state at the end of that
  task, with the exception in the log of effects.
\<close>

definition sortByUnitPrice :: "bool \<Rightarrow> state \<Rightarrow> state" where
  "sortByUnitPrice asc st0 =
     (let st = st0\<lparr>currentSortState := Some \<lparr>ascending = asc, global = False\<rparr>\<rparr>
      in case getProductCards (document st) of
           Inl err \<Rightarrow> throw err st
         | Inr [] \<Rightarrow> alert NothingToSortReload st
         | Inr (first # rest) \<Rightarrow>
             (let cards = first # rest in
              case parentElement (document st) first of
                None \<Rightarrow> st
              | Some container \<Rightarrow>
                  let d1 = updateElement container ensureFlex (document st);
                      products = sortProducts asc (extractProducts d1 cards);
                      (d2, cssRules) =
                        fold (applyRank container) (zip products [0..<length products]) (d1, []);
                      st1 = injectSortStyles cssRules (st\<lparr>document := d2\<rparr>);
                      st2 = setupSortMaintainer container st1
                  in showNotification (SortedByUnitPrice asc) st2))"

subsection \<open>The callbacks of the maintainer\<close>

datatype mutationType = ChildList | Attributes | CharacterData

record mutationRecord =
  mutationType :: mutationType
  addedNodes :: nat
  removedNodes :: nat

text \<open>
  The callback of the mutation observer: without a sort state nothing happens; otherwise the
  first record of a child list change with an added or removed node schedules one re-sort,
  50 ms later.
\<close>

definition observerCallback :: "mutationRecord list \<Rightarrow> state \<Rightarrow> state" where
  "observerCallback mutations st =
     (if currentSortState st = None then st
      else if list_ex (\<lambda>m. mutationType m = ChildList \<and> (0 < addedNodes m \<or> 0 < removedNodes m))
                mutations
      then st\<lparr>timeouts := Suc (timeouts st)\<rparr>
      else st)"

text \<open>The function the observer hands to \<open>setTimeout\<close>.\<close>

definition resortTimeout :: "state \<Rightarrow> state" where
  "resortTimeout st =
     (case currentSortState st of
        None \<Rightarrow> st
      | Some s \<Rightarrow> sortByUnitPrice (ascending s) st)"

text \<open>
  The interval callback for a container. A card has lost its order when its
  \<open>data-sort-order\<close> is a non-empty string that differs from the computed \<open>order\<close>, or when
  it has no such string but carries the class \<open>konzum-sorted\<close>.
\<close>

definition lostOrder :: "(string \<times> nat) list \<Rightarrow> element \<Rightarrow> bool" where
  "lostOrder rules e \<longleftrightarrow>
     (case getAttribute e ''data-sort-order'' of
        Some (Str []) \<Rightarrow> ''konzum-sorted'' \<in> set (classList e)
      | Some expectedOrder \<Rightarrow> Str (computedOrder rules e) \<noteq> expectedOrder
      | None \<Rightarrow> ''konzum-sorted'' \<in> set (classList e))"

definition needsReapply :: "(string \<times> nat) list \<Rightarrow> node \<Rightarrow> eid list \<Rightarrow> bool" where
  "needsReapply rules d cards \<longleftrightarrow>
     list_ex (\<lambda>c. case elementOf d c of None \<Rightarrow> False | Some e \<Rightarrow> lostOrder rules e) cards \<or>
     list_ex (\<lambda>c. case elementOf d c of
                    None \<Rightarrow> False
                  | Some e \<Rightarrow> getAttribute e ''data-sort-order'' = None) cards"

definition verifyOrder :: "eid \<Rightarrow> state \<Rightarrow> state" where
  "verifyOrder container st =
     (case currentSortState st of
        None \<Rightarrow> st
      | Some s \<Rightarrow>
          let cards = querySelectorAllIn (document st) container
                [Compound [Tag ''article'', Class ''product-item'']];
              rules = (case sortStyles st of None \<Rightarrow> [] | Some cssRules \<Rightarrow> cssRules)
          in if cards = [] then st
             else if needsReapply rules (document st) cards
             then sortByUnitPrice (ascending s) st
             else st)"

section \<open>The global sort\<close>

definition paginationLinkSelector :: selector where
  "paginationLinkSelector =
     [Descendant [Class ''pagination''] [Tag ''a''],
      Descendant [ClassContains ''pagination''] [Tag ''a''],
      Descendant [ClassContains ''page''] [Tag ''a'']]"

text \<open>\<open>text.match(/^\d+$/)\<close> succeeds on the non-empty strings of digits.\<close>

definition isInteger :: "jsstring \<Rightarrow> bool" where
  "isInteger s \<longleftrightarrow> s \<noteq> [] \<and> list_all isDigit s"

text \<open>The test for several pages at the start of \<open>sortByUnitPriceGlobally\<close>.\<close>

definition hasPagination :: "node \<Rightarrow> bool" where
  "hasPagination d \<longleftrightarrow>
     list_ex (\<lambda>link. isInteger (trim (textContentOf d link)))
       (querySelectorAll d paginationLinkSelector)"

text \<open>
  \<open>parseInt(link.textContent.match(/\d+/)[0])\<close>: the first run of digits of the text, as a
  Number; \<open>None\<close> when the text has no digit.
\<close>

definition pageNumber :: "jsstring \<Rightarrow> number option" where
  "pageNumber s =
     (case dropWhile (\<lambda>c. \<not> isDigit c) s of
        [] \<Rightarrow> None
      | r \<Rightarrow> Some (roundFraction (digitsValue (takeWhile isDigit r)) 1))"

text \<open>\<open>a > b\<close> on Numbers.\<close>

fun greater :: "number \<Rightarrow> number \<Rightarrow> bool" where
  "greater NaN _ \<longleftrightarrow> False"
| "greater _ NaN \<longleftrightarrow> False"
| "greater (Num a) (Num b) \<longleftrightarrow> b < a"
| "greater PosInfinity PosInfinity \<longleftrightarrow> False"
| "greater PosInfinity _ \<longleftrightarrow> True"
| "greater _ NegInfinity \<longleftrightarrow> True"
| "greater _ _ \<longleftrightarrow> False"

text \<open>The largest page number among the pagination links, starting from 1.\<close>

definition maxPageOf :: "node \<Rightarrow> number" where
  "maxPageOf d =
     fold (\<lambda>link maxPage.
             case pageNumber (textContentOf d link) of
               None \<Rightarrow> maxPage
             | Some pageNum \<Rightarrow> if greater pageNum maxPage then pageNum else maxPage)
       (querySelectorAll d paginationLinkSelector) (Num 1)"

text \<open>The subtree of an element, which is what \<open>outerHTML\<close> serialises.\<close>

definition outerHTML :: "node \<Rightarrow> eid \<Rightarrow> snapshot" where
  "outerHTML d i =
     (case entryOf d i of
        Some (_, e, cs, _) \<Rightarrow> (i, e, cs)
      | None \<Rightarrow> (i, \<lparr>namespace = HTML, tagName = [], classList = [], attributes = [],
                      style = [], cascadedOrder = []\<rparr>, []))"

text \<open>
  \<open>card.querySelector('a[href*="/web/products/"]')?.textContent?.trim() || ''\<close>.
\<close>

definition productName :: "node \<Rightarrow> eid \<Rightarrow> jsstring" where
  "productName d c =
     (case querySelectorAllIn d c [Compound [Tag ''a'', AttributeContains ''href'' ''/web/products/'']] of
        [] \<Rightarrow> []
      | link # _ \<Rightarrow> trim (textContentOf d link))"

text \<open>
  The products of one page, in the order of its cards. The elements of the current page are
  live; those of a fetched page are not.
\<close>

definition productsOfPage :: "nat \<Rightarrow> bool \<Rightarrow> node \<Rightarrow> eid list \<Rightarrow> pageProduct list" where
  "productsOfPage n live d cards =
     map (\<lambda>c. \<lparr>unitPrice = extractUnitPrice d c,
                liveElement = (if live then Some c else None),
                page = n,
                name = productName d c,
                html = outerHTML d c\<rparr>) cards"

text \<open>
  The body of the loop over the pages, which is one \<open>try\<close> block. Page 1 is the current
  tree, read with \<open>getProductCards\<close>; an exception of that call is caught, so that the
  page adds nothing. Any other page is fetched and parsed, and its cards are the elements
  \<open>article.product-item\<close>; a failed fetch is caught too and adds nothing.
\<close>

definition fetchPage :: "nat \<Rightarrow> pageProduct list \<times> state \<Rightarrow> pageProduct list \<times> state" where
  "fetchPage n = (\<lambda>(allProducts, st).
     if n = 1 then
       (case getProductCards (document st) of
          Inl err \<Rightarrow> (allProducts, st)
        | Inr cards \<Rightarrow> (allProducts @ productsOfPage n True (document st) cards, st))
     else
       let st' = st\<lparr>effects := effects st @ [Fetch n]\<rparr>
       in case map_of (network st) n of
            None \<Rightarrow> (allProducts, st')
          | Some doc \<Rightarrow>
              (allProducts @ productsOfPage n False doc
                 (querySelectorAll doc [Compound [Tag ''article'', Class ''product-item'']]), st'))"

text \<open>
  The loop \<open>for (let page = 1; page <= maxPage; page++)\<close>. The counter is a Number: it counts
  exactly up to \<open>2^53\<close>, where adding one no longer changes it. So the loop ends when
  \<open>maxPage\<close> is at most \<open>2^53\<close> and runs forever otherwise, also when \<open>maxPage\<close> is
  \<open>Infinity\<close>; running forever is the value \<open>None\<close>.
\<close>

definition increment :: "nat \<Rightarrow> nat" where
  "increment n = (if n < 2 ^ 53 then Suc n else n)"

partial_function (option) fetchPages ::
  "nat \<Rightarrow> number \<Rightarrow> pageProduct list \<times> state \<Rightarrow> (pageProduct list \<times> state) option" where
  "fetchPages n maxPage acc =
     (if lessEq (Num (of_nat n)) maxPage then fetchPages (increment n) maxPage (fetchPage n acc)
      else Some acc)"

declare fetchPages.simps [code]

definition fetchAllProducts :: "state \<Rightarrow> (pageProduct list \<times> state) option" where
  "fetchAllProducts st = fetchPages 1 (maxPageOf (document st)) ([], st)"

text \<open>
  \<open>replaceCurrentPageProducts\<close>: without a product list container nothing is done. Otherwise
  the cards in the container are removed and one new card per product is parsed from its
  \<open>html\<close> and appended; parsing gives back the serialised subtree with new identities, as
  it does for the \<open>article\<close> of a card and for every other element that the HTML parser
  accepts inside a \<open>div\<close>.
\<close>

definition productListSelector :: selector where
  "productListSelector =
     [Compound [Class ''product-list''], Compound [ClassContains ''product-list'']]"

definition appendProduct :: "eid \<Rightarrow> pageProduct \<Rightarrow> state \<Rightarrow> state" where
  "appendProduct container p st =
     (case html p of (i, e, cs) \<Rightarrow>
        st\<lparr>document := appendChild container (renumber (nextId st) (Element i e cs)) (document st),
           nextId := nextId st + countElements (Element i e cs)\<rparr>)"

definition replaceCurrentPageProducts :: "pageProduct list \<Rightarrow> state \<Rightarrow> state" where
  "replaceCurrentPageProducts products st =
     (case querySelector (document st) productListSelector of
        None \<Rightarrow> st
      | Some container \<Rightarrow>
          let existingCards = querySelectorAllIn (document st) container
                [Compound [Tag ''article'', Class ''product-item'']]
          in fold (appendProduct container) products
               (st\<lparr>document := removeElements existingCards (document st)\<rparr>))"

definition hidePagination :: "state \<Rightarrow> state" where
  "hidePagination st =
     st\<lparr>document :=
          fold (\<lambda>i. updateElement i (setProperty ''display'' ''none'' False))
            (querySelectorAll (document st)
               [Compound [Class ''pagination''], Compound [ClassContains ''pagination''],
                Compound [ClassContains ''Pagination'']])
            (document st)\<rparr>"

text \<open>
  The order of the global sort: the products with a price, sorted, then the products
  without one.
\<close>

definition sortedAll :: "bool \<Rightarrow> pageProduct list \<Rightarrow> pageProduct list" where
  "sortedAll asc allProducts =
     (let withPrice = filter (\<lambda>p. unitPrice p \<noteq> None) allProducts;
          withoutPrice = filter (\<lambda>p. unitPrice p = None) allProducts
      in arraySort (\<lambda>a b. byUnitPrice asc (unitPrice a) (unitPrice b)) withPrice @ withoutPrice)"

text \<open>
  \<open>sortByUnitPriceGlobally\<close>. The function is asynchronous; it is modelled as one step, from
  its call to the end of its last continuation. \<open>None\<close> means that it never gets there. An
  exception of the local sort, which it calls as its last statement on a page without
  pagination, rejects its promise; no caller handles the rejection, and the state is the one
  the local sort left.
\<close>

definition sortByUnitPriceGlobally :: "bool \<Rightarrow> state \<Rightarrow> state option" where
  "sortByUnitPriceGlobally asc st0 =
     (let st = st0\<lparr>currentSortState := Some \<lparr>ascending = asc, global = True\<rparr>\<rparr>
      in if \<not> hasPagination (document st) then Some (sortByUnitPrice asc st)
         else
           (case fetchAllProducts (showNotification LoadingAllPages st) of
              None \<Rightarrow> None
            | Some (allProducts, st1) \<Rightarrow>
                let st2 = st1\<lparr>allProductsData := allProducts\<rparr>
                in if allProducts = [] then Some (alert NothingToSort st2)
                   else Some (showNotification (ShownAll (length allProducts) asc)
                           (hidePagination
                             (replaceCurrentPageProducts (sortedAll asc allProducts) st2)))))"

section \<open>The dropdown and the events of the host\<close>

text \<open>
  The value of the sorting dropdown: one of the two options the script adds, or any other.
\<close>

datatype dropdownValue = UnitPriceAsc | UnitPriceDesc | OtherValue

text \<open>
  What the clear branch of \<open>handleChange\<close> does to a card of class \<open>konzum-sorted\<close>: the
  class is removed, then every class that starts with \<open>konzum-sort-\<close>.
\<close>

definition unmark :: "element \<Rightarrow> element" where
  "unmark e =
     (let e1 = removeClass ''konzum-sorted'' e
      in fold (\<lambda>cls e'. if startsWith cls ''konzum-sort-'' then removeClass cls e' else e')
           (classList e1) e1)"

definition clearSort :: "state \<Rightarrow> state" where
  "clearSort st0 =
     (let st = st0\<lparr>currentSortState := None\<rparr>;
          st1 = (case sortMaintainerInterval st of
                   Some h \<Rightarrow> (clearInterval h st)\<lparr>sortMaintainerInterval := None\<rparr>
                 | None \<Rightarrow> st);
          sortedCards = querySelectorAll (document st1) [Compound [Class ''konzum-sorted'']]
      in st1\<lparr>document := fold (\<lambda>c. updateElement c unmark) sortedCards (document st1)\<rparr>)"

text \<open>\<open>handleChange\<close>, the listener for \<open>change\<close> and \<open>input\<close> on the dropdown.\<close>

definition handleChange :: "dropdownValue \<Rightarrow> state \<Rightarrow> state option" where
  "handleChange v st =
     (case v of
        UnitPriceAsc \<Rightarrow> sortByUnitPriceGlobally True st
      | UnitPriceDesc \<Rightarrow> sortByUnitPriceGlobally False st
      | OtherValue \<Rightarrow> Some (clearSort st))"

text \<open>
  What the host does after the script has returned, as far as the sort maintainer is
  concerned: a running timer fires, a connected observer delivers mutation records, a
  re-sort timeout comes due, or the page rewrites its tree. A handle that is not running or
  not connected does nothing.
\<close>

datatype event =
    TimerFires nat
  | ObserverDelivers nat "mutationRecord list"
  | TimeoutFires
  | HostRewrites node

definition react :: "event \<Rightarrow> state \<Rightarrow> state" where
  "react ev st =
     (case ev of
        TimerFires h \<Rightarrow>
          (case map_of (intervals st) h of
             None \<Rightarrow> st
           | Some container \<Rightarrow> verifyOrder container st)
      | ObserverDelivers h mutations \<Rightarrow>
          (case map_of (observers st) h of
             None \<Rightarrow> st
           | Some container \<Rightarrow> observerCallback mutations st)
      | TimeoutFires \<Rightarrow>
          (if timeouts st = 0 then st
           else resortTimeout (st\<lparr>timeouts := timeouts st - 1\<rparr>))
      | HostRewrites d \<Rightarrow> st\<lparr>document := d\<rparr>)"

section \<open>Notions for the statements\<close>

text \<open>
  The value of a numeral \<open>digits\<close>, \<open>digits,digits\<close> or \<open>digits.digits\<close> read as a decimal
  fraction: the integer part plus the digits after the separator over the matching power of
  ten.
\<close>

definition decimalValue :: "jsstring \<Rightarrow> rat" where
  "decimalValue m =
     (let ip = takeWhile isDigit m;
          fp = takeWhile isDigit (drop 1 (dropWhile isDigit m))
      in of_int (digitsValue ip) + of_int (digitsValue fp) / 10 ^ length fp)"

text \<open>The pages that a log of effects fetched, in order.\<close>

fun fetches :: "effect list \<Rightarrow> nat list" where
  "fetches [] = []"
| "fetches (Fetch n # es) = n # fetches es"
| "fetches (_ # es) = fetches es"

text \<open>The messages that a log of effects put before the user with \<open>alert\<close>.\<close>

fun alerts :: "effect list \<Rightarrow> message list" where
  "alerts [] = []"
| "alerts (Alert m # es) = m # alerts es"
| "alerts (_ # es) = alerts es"

text \<open>What page \<open>n\<close> contributes to the products of a global sort.\<close>

definition productsOnPage :: "state \<Rightarrow> nat \<Rightarrow> pageProduct list" where
  "productsOnPage st n =
     (if n = 1 then
        (case getProductCards (document st) of
           Inl err \<Rightarrow> []
         | Inr cards \<Rightarrow> productsOfPage n True (document st) cards)
      else case map_of (network st) n of
             None \<Rightarrow> []
           | Some doc \<Rightarrow>
               productsOfPage n False doc
                 (querySelectorAll doc [Compound [Tag ''article'', Class ''product-item'']]))"

text \<open>The cards that the locator returns; none when it ends by an exception.\<close>

definition foundCards :: "node \<Rightarrow> eid list" where
  "foundCards d = (case getProductCards d of Inl err \<Rightarrow> [] | Inr cards \<Rightarrow> cards)"


text \<open>A run of host events, and the tree that the rewrites of the host alone lead to.\<close>

definition run :: "event list \<Rightarrow> state \<Rightarrow> state" where
  "run evs st = fold react evs st"

fun rewritten :: "event list \<Rightarrow> node \<Rightarrow> node" where
  "rewritten [] d = d"
| "rewritten (HostRewrites d' # evs) d = rewritten evs d'"
| "rewritten (_ # evs) d = rewritten evs d"

text \<open>The elements of a tree with their identities, in document order.\<close>

definition elementsOf :: "node \<Rightarrow> (eid \<times> element) list" where
  "elementsOf d = map (\<lambda>(i, e, cs, ancestors). (i, e)) (walk [] d)"

text \<open>
  Devices for the proofs about writes. \<open>entryMap g\<close> is what a write \<open>g\<close> to the elements
  does to an entry of the walk; a write is neutral for the selectors when it keeps the kind
  of element, the tag, the classes and the attributes; \<open>marksOn\<close> collects, for one element, what the rounds of
  \<open>products.forEach\<close> write to it.
\<close>

definition entryMap :: "(eid \<Rightarrow> element \<Rightarrow> element) \<Rightarrow> entry \<Rightarrow> entry" where
  "entryMap g = (\<lambda>(i, e, cs, ancestors).
     (i, g i e, map (mapElements g) cs, map (\<lambda>(j, f). (j, g j f)) ancestors))"

definition selectorNeutral :: "(eid \<Rightarrow> element \<Rightarrow> element) \<Rightarrow> bool" where
  "selectorNeutral g \<longleftrightarrow>
     (\<forall>i e. namespace (g i e) = namespace e \<and> tagName (g i e) = tagName e \<and>
            classList (g i e) = classList e \<and> attributes (g i e) = attributes e)"

fun marksOn :: "eid \<Rightarrow> node \<Rightarrow> (product \<times> nat) list \<Rightarrow> eid \<Rightarrow> element \<Rightarrow> element" where
  "marksOn container d [] j e = e"
| "marksOn container d ((p, k) # zs) j e =
     marksOn container d zs j
       (if element p = j \<and> parentElement d j = Some container
        then markSorted k (unitPrice p) e else e)"

fun rulesOf :: "eid \<Rightarrow> node \<Rightarrow> (product \<times> nat) list \<Rightarrow> (string \<times> nat) list" where
  "rulesOf container d [] = []"
| "rulesOf container d ((p, k) # zs) =
     (if parentElement d (element p) = Some container then [(sortClass k, k)] else []) @
     rulesOf container d zs"

text \<open>A container that \<open>ensureFlex\<close> leaves as it is.\<close>

definition flexed :: "element \<Rightarrow> bool" where
  "flexed e \<longleftrightarrow>
     getPropertyValue e ''display'' = ''flex'' \<and> getPropertyValue e ''flex-wrap'' \<noteq> [] \<and>
     getPropertyValue e ''flex-direction'' \<noteq> []"

section \<open>Example pages\<close>

text \<open>
  Small pages for the witnesses and counterexamples. A card is an \<open>article.product-item\<close>
  with a text.
\<close>

definition plain :: "string \<Rightarrow> string list \<Rightarrow> element" where
  "plain t cls =
     \<lparr>namespace = HTML, tagName = t, classList = cls, attributes = [], style = [],
      cascadedOrder = ''0''\<rparr>"

definition productCard :: "eid \<Rightarrow> jsstring \<Rightarrow> node" where
  "productCard i txt = Element i (plain ''ARTICLE'' [''product-item'']) [TextNode txt]"

definition unitPriceText :: "string \<Rightarrow> jsstring" where
  "unitPriceText p = ascii ''Cijena za j.m.: '' @ ascii p @ ascii '' '' @ [euro]"

text \<open>
  The first of two pages: pagination links \<open>1\<close> and \<open>2\<close>, and a product list with the unit
  prices 0,5 and 0.2. The second page has the unit price 0,3 and a card without a price.
\<close>

definition examplePage1 :: node where
  "examplePage1 =
     Element 0 (plain ''HTML'' [])
       [Element 1 (plain ''BODY'' [])
          [Element 2 (plain ''DIV'' [''pagination''])
             [Element 3 (plain ''A'' []) [TextNode (ascii ''1'')],
              Element 4 (plain ''A'' []) [TextNode (ascii '' 2 '')]],
           Element 5 (plain ''DIV'' [''product-list''])
             [productCard 6 (unitPriceText ''0,5''),
              productCard 7 (unitPriceText ''0.2'')]]]"

definition examplePage2 :: node where
  "examplePage2 =
     Element 0 (plain ''HTML'' [])
       [Element 1 (plain ''BODY'' [])
          [Element 5 (plain ''DIV'' [''product-list''])
             [productCard 6 (unitPriceText ''0,3''),
              productCard 7 (ascii ''nema cijene'')]]]"

definition initialState :: "node \<Rightarrow> (nat \<times> node) list \<Rightarrow> state" where
  "initialState d pages =
     \<lparr>document = d, currentSortState = None, allProductsData = [],
      sortMaintainerInterval = None, containerObserver = None, sortStyles = None,
      intervals = [], observers = [], timeouts = 0, nextHandle = 1, nextId = 100,
      effects = [], network = pages\<rparr>"

definition exampleState :: state where
  "exampleState = initialState examplePage1 [(2, examplePage2)]"

text \<open>A page without pagination: three cards, the second without a price.\<close>

definition singlePage :: node where
  "singlePage =
     Element 0 (plain ''HTML'' [])
       [Element 1 (plain ''BODY'' [])
          [Element 5 (plain ''DIV'' [''product-list''])
             [productCard 6 (unitPriceText ''0,5''),
              productCard 7 (ascii ''nema cijene''),
              productCard 8 (unitPriceText ''0.2'')]]]"

definition singlePageState :: state where
  "singlePageState = initialState singlePage []"



text \<open>
  A page whose root element is itself found as the first card: the class of \<open>html\<close>
  contains \<open>product-\<close> and its text shows the currency sign.
\<close>

definition rootCardPage :: node where
  "rootCardPage =
     Element 0 (plain ''HTML'' [''product-page''])
       [Element 1 (plain ''BODY'' []) [TextNode (unitPriceText ''1,5'')]]"

text \<open>
  What the ascending local sort makes of the page without pagination: the container is a
  wrapping flex row, every card carries its rank, and one observer and one timer watch the
  container.
\<close>

definition rankedCard :: "eid \<Rightarrow> nat \<Rightarrow> domString \<Rightarrow> jsstring \<Rightarrow> node" where
  "rankedCard i k price txt =
     Element i
       \<lparr>namespace = HTML, tagName = ''ARTICLE'',
        classList = [''product-item'', ''konzum-sort-'' @ natToString k, ''konzum-sorted''],
        attributes = [(''data-sort-order'', Str (natToString k)), (''data-unit-price'', price)],
        style = [(''order'', natToString k, True)],
        cascadedOrder = ''0''\<rparr>
       [TextNode txt]"

definition sortedSinglePage :: node where
  "sortedSinglePage =
     Element 0 (plain ''HTML'' [])
       [Element 1 (plain ''BODY'' [])
          [Element 5
             ((plain ''DIV'' [''product-list''])
                \<lparr>style := [(''display'', ''flex'', False), (''flex-wrap'', ''wrap'', False),
                            (''flex-direction'', ''row'', False)]\<rparr>)
             [rankedCard 6 1 (StringOf (Num (1 / 2))) (unitPriceText ''0,5''),
              rankedCard 7 2 (Str ''none'') (ascii ''nema cijene''),
              rankedCard 8 0 (StringOf (roundFraction 2 10)) (unitPriceText ''0.2'')]]]"

definition sortedSinglePageState :: state where
  "sortedSinglePageState =
     \<lparr>document = sortedSinglePage,
      currentSortState = Some \<lparr>ascending = True, global = False\<rparr>,
      allProductsData = [],
      sortMaintainerInterval = Some 2, containerObserver = Some 1,
      sortStyles = Some [(''konzum-sort-0'', 0), (''konzum-sort-1'', 1), (''konzum-sort-2'', 2)],
      intervals = [(2, 5)], observers = [(1, 5)], timeouts = 0, nextHandle = 3, nextId = 100,
      effects = [Notification (SortedByUnitPrice True)], network = []\<rparr>"

text \<open>
  A first page of two whose cards are not in a product list: no element has a class that
  contains \<open>product-list\<close>.
\<close>

definition looseCardsPage :: node where
  "looseCardsPage =
     Element 0 (plain ''HTML'' [])
       [Element 1 (plain ''BODY'' [])
          [Element 2 (plain ''DIV'' [''pagination''])
             [Element 3 (plain ''A'' []) [TextNode (ascii ''1'')],
              Element 4 (plain ''A'' []) [TextNode (ascii ''2'')]],
           productCard 6 (unitPriceText ''0,5''),
           productCard 7 (unitPriceText ''0.2'')]]"

definition looseCardsState :: state where
  "looseCardsState = initialState looseCardsPage [(2, examplePage2)]"

text \<open>
  A page whose only product link is an SVG link inside an \<open>svg\<close> element, and the first of
  two pages that has pagination links but no product at all.
\<close>

definition svgLinkPage :: node where
  "svgLinkPage =
     Element 0 (plain ''HTML'' [])
       [Element 1 (plain ''BODY'' [])
          [Element 2 ((plain ''svg'' [])\<lparr>namespace := SVG\<rparr>)
             [Element 3
                ((plain ''a'' [])
                   \<lparr>namespace := SVG, attributes := [(''href'', Str ''/web/products/1'')]\<rparr>)
                [TextNode (ascii ''Kruh'')]]]]"

definition svgLinkState :: state where
  "svgLinkState = initialState svgLinkPage []"




section \<open>Properties of the price extractor\<close>

lemma digitsValue_snoc: "digitsValue (ds @ [c]) = 10 * digitsValue ds + (uint c - 48)"
  by (simp add: digitsValue_def)

lemma isDigit_uint: "isDigit c \<Longrightarrow> 0 \<le> uint c - 48 \<and> uint c - 48 \<le> 9"
  by (simp add: isDigit_def word_le_def)

lemma digitsValue_bounds:
  "\<forall>c\<in>set ds. isDigit c \<Longrightarrow> 0 \<le> digitsValue ds \<and> digitsValue ds < 10 ^ length ds"
proof (induction ds rule: rev_induct)
  case Nil
  show ?case by (simp add: digitsValue_def)
next
  case (snoc c ds)
  then have ih: "0 \<le> digitsValue ds" "digitsValue ds < 10 ^ length ds" and c: "isDigit c"
    by simp_all
  from isDigit_uint [OF c] ih show ?case
    by (simp add: digitsValue_snoc)
qed

lemma roundHalfEven_nonneg: "0 \<le> a \<Longrightarrow> 0 < b \<Longrightarrow> 0 \<le> roundHalfEven a b"
  by (simp add: roundHalfEven_def Let_def pos_imp_zdiv_nonneg_iff)

lemma pow2_pos: "0 < pow2 k"
  by (simp add: pow2_def)

lemma scale2_nonneg: "0 \<le> a \<Longrightarrow> 0 \<le> scale2 a k"
  by (simp add: scale2_def)

lemma scale2_pos: "0 < a \<Longrightarrow> 0 < scale2 a k"
  by (simp add: scale2_def)

lemma roundFraction_cases:
  assumes "0 \<le> p" "0 < q"
  shows "roundFraction p q = PosInfinity \<or> (\<exists>r\<ge>0. roundFraction p q = Num r)"
proof -
  have "0 \<le> of_int (roundHalfEven (scale2 p a) (scale2 q b)) * pow2 c" for a b c
    using assms roundHalfEven_nonneg scale2_nonneg scale2_pos pow2_pos
    by (simp add: less_imp_le)
  then show ?thesis
    by (auto simp: roundFraction_def Let_def)
qed

lemma roundFraction_finite:
  assumes "0 \<le> p" "0 < q" "p < 10 ^ 308 * q"
  shows "\<exists>r\<ge>0. roundFraction p q = Num r"
proof -
  have "(10::int) ^ 308 < 2 ^ 1024 - 2 ^ 970" by simp
  then have "10 ^ 308 * q \<le> (2 ^ 1024 - 2 ^ 970) * q"
    using assms(2) by (simp add: mult_right_mono)
  with assms(3) have "\<not> (2 ^ 1024 - 2 ^ 970) * q \<le> p" by linarith
  then have "roundFraction p q \<noteq> PosInfinity"
    by (simp add: roundFraction_def Let_def)
  with roundFraction_cases [OF assms(1,2)] show ?thesis by blast
qed


lemma takeWhile_isDigit_digits: "\<forall>c\<in>set (takeWhile isDigit s). isDigit c"
  by (auto dest: set_takeWhileD)

lemma parseFloat_shape:
  "parseFloat s = NaN \<or>
   (\<exists>ip fp. (\<forall>c\<in>set (ip @ fp). isDigit c) \<and> length ip \<le> length s \<and>
      parseFloat s = roundFraction (digitsValue (ip @ fp)) (10 ^ length fp))"
proof -
  define ip where "ip = takeWhile isDigit s"
  define fp where "fp = (case dropWhile isDigit s of [] \<Rightarrow> []
      | c # r' \<Rightarrow> if c = 0x2E then takeWhile isDigit r' else [])"
  have fp: "\<forall>c\<in>set fp. isDigit c"
    by (auto simp: fp_def split: list.splits dest: set_takeWhileD)
  have ip: "\<forall>c\<in>set ip. isDigit c"
    by (auto simp: ip_def dest: set_takeWhileD)
  have len: "length ip \<le> length s"
    by (simp add: ip_def length_takeWhile_le)
  have pf: "parseFloat s = (if ip = [] \<and> fp = [] then NaN
      else roundFraction (digitsValue (ip @ fp)) (10 ^ length fp))"
    by (simp add: parseFloat_def Let_def ip_def fp_def)
  show ?thesis
  proof (cases "ip = [] \<and> fp = []")
    case True
    with pf show ?thesis by simp
  next
    case False
    with pf have "parseFloat s = roundFraction (digitsValue (ip @ fp)) (10 ^ length fp)"
      by simp
    with ip fp len have "(\<forall>c\<in>set (ip @ fp). isDigit c) \<and> length ip \<le> length s \<and>
      parseFloat s = roundFraction (digitsValue (ip @ fp)) (10 ^ length fp)"
      by auto
    then show ?thesis by blast
  qed
qed

lemma parseFloat_cases:
  "parseFloat s = NaN \<or> parseFloat s = PosInfinity \<or> (\<exists>r\<ge>0. parseFloat s = Num r)"
proof -
  from parseFloat_shape [of s] show ?thesis
  proof
    assume "parseFloat s = NaN"
    then show ?thesis by simp
  next
    assume "\<exists>ip fp. (\<forall>c\<in>set (ip @ fp). isDigit c) \<and> length ip \<le> length s \<and>
      parseFloat s = roundFraction (digitsValue (ip @ fp)) (10 ^ length fp)"
    then obtain ip fp where d: "\<forall>c\<in>set (ip @ fp). isDigit c"
      and eq: "parseFloat s = roundFraction (digitsValue (ip @ fp)) (10 ^ length fp)"
      by blast
    from digitsValue_bounds [OF d] have "0 \<le> digitsValue (ip @ fp)" by simp
    from roundFraction_cases [OF this, of "10 ^ length fp"] eq show ?thesis by simp
  qed
qed

lemma parseUnitPrice_cases:
  "parseUnitPrice t = None \<or> parseUnitPrice t = Some PosInfinity \<or>
   (\<exists>r\<ge>0. parseUnitPrice t = Some (Num r))"
proof (cases "parseUnitPrice t")
  case None
  then show ?thesis by simp
next
  case (Some v)
  then obtain s where "v = parseFloat s" "v \<noteq> NaN"
    by (auto simp: parseUnitPrice_def isNaN_def Let_def split: option.splits if_splits)
  with parseFloat_cases [of s] Some show ?thesis by auto
qed

lemma digitsValue_nines: "digitsValue (replicate n 0x39) = 10 ^ n - 1"
proof (induction n)
  case 0
  show ?case by (simp add: digitsValue_def)
next
  case (Suc n)
  have "replicate (Suc n) (0x39 :: 16 word) = replicate n 0x39 @ [0x39]"
    by (simp add: replicate_append_same)
  then have "digitsValue (replicate (Suc n) 0x39) = 10 * digitsValue (replicate n 0x39) + 9"
    by (simp only: digitsValue_snoc) simp
  with Suc show ?case by simp
qed

lemma replaceFirst_absent: "a \<notin> set s \<Longrightarrow> replaceFirst a b s = s"
  by (induction s) auto

lemma parseUnitPrice_digits:
  assumes "ds \<noteq> []" "\<forall>c\<in>set ds. isDigit c"
  shows "parseUnitPrice (Some ds) = Some (roundFraction (digitsValue ds) 1)"
proof -
  have tw: "takeWhile isDigit ds = ds" and dw: "dropWhile isDigit ds = []"
    using assms(2) by simp_all
  have first: "dropWhile (\<lambda>c. \<not> isDigit c) ds = ds"
    using assms by (cases ds) simp_all
  have tok: "fst (numberToken ds) = ds"
    by (simp add: numberToken_def Let_def tw dw)
  have m: "matchNumber ds = Some ds"
  proof (cases ds)
    case Nil
    with assms(1) show ?thesis by simp
  next
    case (Cons c cs)
    with first tok show ?thesis by (simp add: matchNumber_def)
  qed
  have "\<not> isDigit 0x2C" by (simp add: isDigit_def)
  with assms(2) have "0x2C \<notin> set ds" by blast
  then have rep: "replaceFirst 0x2C 0x2E ds = ds"
    by (rule replaceFirst_absent)
  have pf: "parseFloat ds = roundFraction (digitsValue ds) 1"
    using assms(1) by (simp add: parseFloat_def Let_def tw dw)
  have "roundFraction (digitsValue ds) 1 \<noteq> NaN"
    by (simp add: roundFraction_def Let_def)
  then show ?thesis
    using assms(1) by (simp add: parseUnitPrice_def m rep pf isNaN_def)
qed

lemma digitsValue_append:
  "digitsValue (xs @ ys) = digitsValue xs * 10 ^ length ys + digitsValue ys"
proof (induction ys rule: rev_induct)
  case Nil
  show ?case by (simp add: digitsValue_def)
next
  case (snoc y ys)
  have "digitsValue (xs @ ys @ [y]) = 10 * digitsValue (xs @ ys) + (uint y - 48)"
    using digitsValue_snoc [of "xs @ ys" y] by simp
  with snoc show ?case
    by (simp add: digitsValue_snoc algebra_simps)
qed

lemma roundFraction_infinite:
  assumes "0 \<le> p" "0 < q"
  shows "roundFraction p q = PosInfinity \<longleftrightarrow> (2 ^ 1024 - 2 ^ 970) * q \<le> p"
proof (cases "p = 0")
  case True
  have "(0::int) < 2 ^ 1024 - 2 ^ 970" by simp
  then have "0 < (2 ^ 1024 - 2 ^ 970) * q" using assms(2) by (rule mult_pos_pos)
  with True show ?thesis by (simp add: roundFraction_def)
next
  case False
  then show ?thesis by (simp add: roundFraction_def Let_def)
qed

lemma numberToken_shape:
  assumes "isDigit c"
  shows "\<exists>ip sep fp. fst (numberToken (c # cs)) = ip @ sep @ fp \<and> ip \<noteq> [] \<and>
     (\<forall>x\<in>set (ip @ fp). isDigit x) \<and>
     (sep = [] \<and> fp = [] \<or> sep = [0x2C] \<or> sep = [0x2E])"
proof -
  define s where "s = c # cs"
  define ip where "ip = takeWhile isDigit s"
  define r1 where "r1 = dropWhile isDigit s"
  define sep where "sep = (case r1 of [] \<Rightarrow> [] | x # _ \<Rightarrow> if isSeparator x then [x] else [])"
  define fp where "fp = takeWhile isDigit (drop (length sep) r1)"
  have tok: "fst (numberToken s) = ip @ sep @ fp"
    by (simp add: numberToken_def Let_def ip_def r1_def sep_def fp_def)
  have ip: "ip \<noteq> []"
    using assms by (simp add: ip_def s_def)
  have digits: "\<forall>x\<in>set (ip @ fp). isDigit x"
    by (auto simp add: ip_def fp_def dest: set_takeWhileD)
  have head: "r1 = [] \<or> \<not> isDigit (hd r1)"
    unfolding r1_def by (metis hd_dropWhile)
  have "sep = [] \<and> fp = [] \<or> sep = [0x2C] \<or> sep = [0x2E]"
  proof (cases r1)
    case Nil
    then show ?thesis by (simp add: sep_def fp_def)
  next
    case (Cons x xs)
    with head have x: "\<not> isDigit x" by simp
    show ?thesis
    proof (cases "isSeparator x")
      case True
      with Cons show ?thesis by (auto simp add: sep_def isSeparator_def)
    next
      case False
      with Cons x show ?thesis by (simp add: sep_def fp_def)
    qed
  qed
  with tok ip digits show ?thesis unfolding s_def by blast
qed

lemma takeWhile_digits_then:
  assumes "\<forall>x\<in>set ip. isDigit x" "\<not> isDigit y"
  shows "takeWhile isDigit (ip @ y # r) = ip" "dropWhile isDigit (ip @ y # r) = y # r"
  using assms by (simp_all add: takeWhile_append2 dropWhile_append2)

lemma replaceFirst_digits_then:
  assumes "\<forall>x\<in>set ip. isDigit x" "\<forall>x\<in>set r. isDigit x"
  shows "replaceFirst 0x2C 0x2E (ip @ y # r) = ip @ (if y = 0x2C then 0x2E else y) # r"
proof -
  have "\<not> isDigit 0x2C" by (simp add: isDigit_def)
  with assms have "0x2C \<notin> set ip" "0x2C \<notin> set r" by blast+
  then show ?thesis
    by (induction ip) (auto simp add: replaceFirst_absent)
qed

lemma token_value:
  assumes "ip \<noteq> []" "\<forall>x\<in>set (ip @ fp). isDigit x"
    "sep = [] \<and> fp = [] \<or> sep = [0x2C] \<or> sep = [0x2E]"
  shows "takeWhile isDigit (ip @ sep @ fp) = ip"
    and "decimalValue (ip @ sep @ fp) = of_int (digitsValue (ip @ fp)) / 10 ^ length fp"
    and "parseFloat (replaceFirst 0x2C 0x2E (ip @ sep @ fp)) =
      roundFraction (digitsValue (ip @ fp)) (10 ^ length fp)"
proof -
  have ipd: "\<forall>x\<in>set ip. isDigit x" and fpd: "\<forall>x\<in>set fp. isDigit x"
    using assms(2) by simp_all
  have nd: "\<not> isDigit 0x2C" "\<not> isDigit 0x2E" by (simp_all add: isDigit_def)
  have dv: "of_int (digitsValue ip) + of_int (digitsValue fp) / 10 ^ length fp =
      (of_int (digitsValue (ip @ fp)) :: rat) / 10 ^ length fp"
    by (simp add: digitsValue_append add_divide_distrib)
  from assms(3) consider "sep = []" "fp = []" | "sep = [0x2C]" | "sep = [0x2E]" by blast
  then have "takeWhile isDigit (ip @ sep @ fp) = ip \<and>
    decimalValue (ip @ sep @ fp) = of_int (digitsValue (ip @ fp)) / 10 ^ length fp \<and>
    parseFloat (replaceFirst 0x2C 0x2E (ip @ sep @ fp)) =
      roundFraction (digitsValue (ip @ fp)) (10 ^ length fp)"
  proof cases
    case 1
    have "0x2C \<notin> set ip"
      using ipd nd(1) by blast
    then have rep: "replaceFirst 0x2C 0x2E ip = ip" by (rule replaceFirst_absent)
    have tw: "takeWhile isDigit ip = ip" and dw: "dropWhile isDigit ip = []"
      using ipd by simp_all
    show ?thesis
      using assms(1)
      by (simp add: 1 decimalValue_def parseFloat_def Let_def digitsValue_def rep tw dw)
  next
    case 2
    have twf: "takeWhile isDigit fp = fp"
      using fpd by simp
    show ?thesis
      using ipd fpd nd assms(1)
      by (simp add: 2 decimalValue_def parseFloat_def Let_def takeWhile_digits_then
          replaceFirst_digits_then twf dv)
  next
    case 3
    have twf: "takeWhile isDigit fp = fp"
      using fpd by simp
    show ?thesis
      using ipd fpd nd assms(1)
      by (simp add: 3 decimalValue_def parseFloat_def Let_def takeWhile_digits_then
          replaceFirst_digits_then twf dv)
  qed
  then show "takeWhile isDigit (ip @ sep @ fp) = ip"
    and "decimalValue (ip @ sep @ fp) = of_int (digitsValue (ip @ fp)) / 10 ^ length fp"
    and "parseFloat (replaceFirst 0x2C 0x2E (ip @ sep @ fp)) =
      roundFraction (digitsValue (ip @ fp)) (10 ^ length fp)"
    by simp_all
qed

lemma parseUnitPrice_token:
  assumes "matchNumber s = Some m"
  shows "\<exists>p k. 0 \<le> p \<and> p < 10 ^ (length (takeWhile isDigit m) + k) \<and>
     decimalValue m = of_int p / 10 ^ k \<and>
     parseUnitPrice (Some s) = Some (roundFraction p (10 ^ k))"
proof -
  from assms obtain c cs where r: "dropWhile (\<lambda>c. \<not> isDigit c) s = c # cs"
    and m: "m = fst (numberToken (c # cs))"
    by (auto simp add: matchNumber_def split: list.splits)
  from r have "isDigit c" by (metis hd_dropWhile list.sel(1) list.distinct(1))
  from numberToken_shape [OF this, of cs] m obtain ip sep fp
    where shape: "m = ip @ sep @ fp" "ip \<noteq> []" "\<forall>x\<in>set (ip @ fp). isDigit x"
      "sep = [] \<and> fp = [] \<or> sep = [0x2C] \<or> sep = [0x2E]"
    by auto
  note tv = token_value [OF shape(2,3,4)]
  from r have nonempty: "s \<noteq> []" by auto
  have "roundFraction (digitsValue (ip @ fp)) (10 ^ length fp) \<noteq> NaN"
    by (simp add: roundFraction_def Let_def)
  with assms nonempty have result: "parseUnitPrice (Some s) =
      Some (roundFraction (digitsValue (ip @ fp)) (10 ^ length fp))"
    by (simp add: parseUnitPrice_def shape(1) tv(3) isNaN_def)
  from digitsValue_bounds [OF shape(3)]
  have "0 \<le> digitsValue (ip @ fp)" "digitsValue (ip @ fp) < 10 ^ (length ip + length fp)"
    by simp_all
  with result tv(1,2) shape(1) show ?thesis by auto
qed

lemma parseUnitPrice_None: "parseUnitPrice (Some s) = None \<longleftrightarrow> (\<forall>c\<in>set s. \<not> isDigit c)"
proof (cases "matchNumber s")
  case None
  then have "dropWhile (\<lambda>c. \<not> isDigit c) s = []"
    by (simp add: matchNumber_def split: list.splits)
  then have "\<forall>c\<in>set s. \<not> isDigit c"
    by (simp add: dropWhile_eq_Nil_conv)
  with None show ?thesis by (simp add: parseUnitPrice_def)
next
  case (Some m)
  have "matchNumber s = None" if "\<forall>c\<in>set s. \<not> isDigit c"
  proof -
    from that have none: "dropWhile (\<lambda>c. \<not> isDigit c) s = []" by simp
    show ?thesis by (simp add: matchNumber_def none)
  qed
  with Some have "\<not> (\<forall>c\<in>set s. \<not> isDigit c)" by auto
  with parseUnitPrice_token [OF Some] show ?thesis by auto
qed

lemma parseUnitPrice_infinite:
  assumes "matchNumber s = Some m"
  shows "parseUnitPrice (Some s) = Some PosInfinity \<longleftrightarrow> 2 ^ 1024 - 2 ^ 970 \<le> decimalValue m"
proof -
  from parseUnitPrice_token [OF assms] obtain p k where p: "0 \<le> p"
    and v: "decimalValue m = of_int p / 10 ^ k"
    and r: "parseUnitPrice (Some s) = Some (roundFraction p (10 ^ k))"
    by blast
  have "(2 ^ 1024 - 2 ^ 970 \<le> (of_int p :: rat) / 10 ^ k) \<longleftrightarrow>
      (2 ^ 1024 - 2 ^ 970) * 10 ^ k \<le> (of_int p :: rat)"
    by (simp add: pos_le_divide_eq)
  also have "\<dots> \<longleftrightarrow> (of_int ((2 ^ 1024 - 2 ^ 970) * 10 ^ k) :: rat) \<le> of_int p"
    by simp
  also have "\<dots> \<longleftrightarrow> (2 ^ 1024 - 2 ^ 970) * 10 ^ k \<le> p"
    by (rule of_int_le_iff)
  finally show ?thesis
    using roundFraction_infinite [OF p, of "10 ^ k"] by (simp add: r v)
qed

lemma parseUnitPrice_finite:
  assumes "matchNumber s = Some m" "length (takeWhile isDigit m) \<le> 308"
  shows "\<exists>r\<ge>0. parseUnitPrice (Some s) = Some (Num r)"
proof -
  from parseUnitPrice_token [OF assms(1)] obtain p k where p: "0 \<le> p"
    and less: "p < 10 ^ (length (takeWhile isDigit m) + k)"
    and r: "parseUnitPrice (Some s) = Some (roundFraction p (10 ^ k))"
    by blast
  have "(10::int) ^ length (takeWhile isDigit m) \<le> 10 ^ 308"
    using assms(2) by (intro power_increasing) simp_all
  then have "(10::int) ^ length (takeWhile isDigit m) * 10 ^ k \<le> 10 ^ 308 * 10 ^ k"
    by (intro mult_right_mono) simp_all
  moreover from less have "p < 10 ^ length (takeWhile isDigit m) * 10 ^ k"
    by (simp only: power_add)
  ultimately have "p < 10 ^ 308 * 10 ^ k" by (rule order.strict_trans2 [rotated])
  from roundFraction_finite [OF p _ this] r show ?thesis by simp
qed


lemma matchNumber_digits:
  assumes "ds \<noteq> []" "\<forall>c\<in>set ds. isDigit c"
  shows "matchNumber ds = Some ds"
proof -
  have tw: "takeWhile isDigit ds = ds" and dw: "dropWhile isDigit ds = []"
    using assms(2) by simp_all
  have first: "dropWhile (\<lambda>c. \<not> isDigit c) ds = ds"
    using assms by (cases ds) simp_all
  have tok: "fst (numberToken ds) = ds"
    by (simp add: numberToken_def Let_def tw dw)
  show ?thesis
  proof (cases ds)
    case Nil
    with assms(1) show ?thesis by simp
  next
    case (Cons c cs)
    with first tok show ?thesis by (simp add: matchNumber_def)
  qed
qed

lemma decimalValue_digits:
  assumes "\<forall>c\<in>set ds. isDigit c"
  shows "decimalValue ds = of_int (digitsValue ds)"
proof -
  have tw: "takeWhile isDigit ds = ds" and dw: "dropWhile isDigit ds = []"
    using assms by simp_all
  show ?thesis
    by (simp add: decimalValue_def Let_def tw dw digitsValue_def)
qed

lemma digitsValue_zeros: "digitsValue (replicate n 0x30) = 0"
proof (induction n)
  case 0
  show ?case by (simp add: digitsValue_def)
next
  case (Suc n)
  have "replicate (Suc n) (0x30 :: 16 word) = replicate n 0x30 @ [0x30]"
    by (simp add: replicate_append_same)
  then have "digitsValue (replicate (Suc n) 0x30) = 10 * digitsValue (replicate n 0x30) + 0"
    by (simp only: digitsValue_snoc) simp
  with Suc show ?case by simp
qed

lemma matchNumber_after_spaces:
  assumes "isDigit c"
  shows "matchNumber (replicate n 0x20 @ c # cs) = Some (fst (numberToken (c # cs)))"
proof -
  have "\<not> isDigit 0x20" by (simp add: isDigit_def)
  then have "dropWhile (\<lambda>c. \<not> isDigit c) (replicate n 0x20 @ c # cs) = c # cs"
    using assms by (induction n) simp_all
  then show ?thesis by (simp add: matchNumber_def)
qed

text \<open>
  Claim C4, as the code has it. For every text, present or absent, \<open>parseUnitPrice\<close> returns
  \<open>null\<close> or a Number that is not negative and not \<open>NaN\<close> (the function has no statement
  that can throw); it returns \<open>null\<close> exactly when the text is absent or has no digit.
  Otherwise the regular expression finds a first numeric token, and the Number is
  \<open>+Infinity\<close>, which the test \<open>isNaN\<close> lets through, exactly when the decimal value of that
  token is at least \<open>2^1024 - 2^970\<close>; in particular the Number is finite when the integer
  part of the token has at most 308 digits. The texts \<open>0,41 \<euro>/kom\<close> and \<open>0.41 \<euro>/kom\<close> both
  give the double nearest to 0.41.
\<close>

theorem parseUnitPrice_result:
  "(parseUnitPrice t = None \<or> parseUnitPrice t = Some PosInfinity \<or>
      (\<exists>r\<ge>0. parseUnitPrice t = Some (Num r))) \<and>
   parseUnitPrice None = None \<and>
   (parseUnitPrice (Some s) = None \<longleftrightarrow> (\<forall>c\<in>set s. \<not> isDigit c)) \<and>
   (\<forall>m. matchNumber s = Some m \<longrightarrow>
      (parseUnitPrice (Some s) = Some PosInfinity \<longleftrightarrow> 2 ^ 1024 - 2 ^ 970 \<le> decimalValue m) \<and>
      (length (takeWhile isDigit m) \<le> 308 \<longrightarrow>
         (\<exists>r\<ge>0. parseUnitPrice (Some s) = Some (Num r)))) \<and>
   parseUnitPrice (Some (ascii ''0,41 '' @ [euro] @ ascii ''/kom'')) = Some (roundFraction 41 100) \<and>
   parseUnitPrice (Some (ascii ''0.41 '' @ [euro] @ ascii ''/kom'')) = Some (roundFraction 41 100) \<and>
   roundFraction 41 100 = Num (7385903388887613 / 18014398509481984)"
proof -
  have rf: "roundFraction 41 100 = Num (7385903388887613 / 18014398509481984)"
    by (simp add: roundFraction_def floorLog2_def roundHalfEven_def scale2_def pow2_def
        compute_bitlen Let_def)
  have comma: "parseUnitPrice (Some (ascii ''0,41 '' @ [euro] @ ascii ''/kom'')) =
      Some (roundFraction 41 100)"
    by (simp add: parseUnitPrice_def matchNumber_def numberToken_def parseFloat_def
        digitsValue_def isDigit_def isSeparator_def Let_def ascii_def euro_def isNaN_def rf)
  have dot: "parseUnitPrice (Some (ascii ''0.41 '' @ [euro] @ ascii ''/kom'')) =
      Some (roundFraction 41 100)"
    by (simp add: parseUnitPrice_def matchNumber_def numberToken_def parseFloat_def
        digitsValue_def isDigit_def isSeparator_def Let_def ascii_def euro_def isNaN_def rf)
  have absent: "parseUnitPrice None = None"
    by (simp add: parseUnitPrice_def)
  from parseUnitPrice_cases [of t] absent parseUnitPrice_None [of s]
    parseUnitPrice_infinite [of s] parseUnitPrice_finite [of s] comma dot rf
  show ?thesis by blast
qed

theorem parseUnitPrice_result_witness:
  "matchNumber (replicate 305 0x20 @ ascii ''0,41'') = Some (ascii ''0,41'') \<and>
   length (takeWhile isDigit (ascii ''0,41'')) \<le> 308 \<and>
   (\<exists>r\<ge>0. parseUnitPrice (Some (replicate 305 0x20 @ ascii ''0,41'')) = Some (Num r)) \<and>
   matchNumber (0x31 # replicate 308 0x30) = Some (0x31 # replicate 308 0x30) \<and>
   decimalValue (0x31 # replicate 308 0x30) = 10 ^ 308 \<and>
   parseUnitPrice (Some (0x31 # replicate 308 0x30)) \<noteq> Some PosInfinity \<and>
   matchNumber (replicate 309 0x39) = Some (replicate 309 0x39) \<and>
   decimalValue (replicate 309 0x39) = 10 ^ 309 - 1 \<and>
   parseUnitPrice (Some (replicate 309 0x39)) = Some PosInfinity"
proof -
  have "matchNumber (replicate 305 0x20 @ 0x30 # ascii '',41'') =
      Some (fst (numberToken (0x30 # ascii '',41'')))"
    by (rule matchNumber_after_spaces) (simp add: isDigit_def)
  then have spaces: "matchNumber (replicate 305 0x20 @ ascii ''0,41'') = Some (ascii ''0,41'')"
    by (simp add: ascii_def numberToken_def Let_def isDigit_def isSeparator_def)
  have short: "length (takeWhile isDigit (ascii ''0,41'')) \<le> 308"
    by (simp add: ascii_def isDigit_def)
  have digits: "\<forall>c\<in>set (0x31 # replicate 308 0x30). isDigit c"
    "\<forall>c\<in>set (replicate 309 0x39). isDigit c"
    by (simp_all add: isDigit_def)
  have one: "matchNumber (0x31 # replicate 308 0x30) = Some (0x31 # replicate 308 0x30)"
    by (rule matchNumber_digits [OF _ digits(1)]) simp
  have nines: "matchNumber (replicate 309 0x39) = Some (replicate 309 0x39)"
    by (rule matchNumber_digits [OF _ digits(2)]) simp
  have "digitsValue ([0x31] @ replicate 308 0x30) = 10 ^ 308"
    unfolding digitsValue_append digitsValue_zeros by (simp add: digitsValue_def)
  then have value_one: "decimalValue (0x31 # replicate 308 0x30) = 10 ^ 308"
    using decimalValue_digits [OF digits(1)] by simp
  have value_nines: "decimalValue (replicate 309 0x39) = 10 ^ 309 - 1"
    using decimalValue_digits [OF digits(2)] by (simp add: digitsValue_nines)
  have below: "\<not> (2 ^ 1024 - 2 ^ 970 \<le> (10::rat) ^ 308)" by simp
  have above: "2 ^ 1024 - 2 ^ 970 \<le> (10::rat) ^ 309 - 1" by simp
  from parseUnitPrice_result [of None "replicate 305 0x20 @ ascii ''0,41''"] spaces short
  have "\<exists>r\<ge>0. parseUnitPrice (Some (replicate 305 0x20 @ ascii ''0,41'')) = Some (Num r)"
    by blast
  moreover
  from parseUnitPrice_result [of None "0x31 # replicate 308 0x30"] one below
  have "parseUnitPrice (Some (0x31 # replicate 308 0x30)) \<noteq> Some PosInfinity"
    unfolding value_one [symmetric] by blast
  moreover
  from parseUnitPrice_result [of None "replicate 309 0x39"] nines above
  have "parseUnitPrice (Some (replicate 309 0x39)) = Some PosInfinity"
    unfolding value_nines [symmetric] by blast
  ultimately show ?thesis
    using spaces short one nines value_one value_nines by blast
qed

text \<open>
  The claim as the specification words it, with "finite", fails: a text of 309 nines is
  read as \<open>+Infinity\<close>.
\<close>

theorem parseUnitPrice_infinite_counterexample:
  "parseUnitPrice (Some (replicate 309 0x39)) = Some PosInfinity"
proof -
  have "parseUnitPrice (Some (replicate 309 0x39)) =
      Some (roundFraction (digitsValue (replicate 309 0x39)) 1)"
    by (rule parseUnitPrice_digits) (simp_all add: isDigit_def)
  also have "digitsValue (replicate 309 0x39) = 10 ^ 309 - 1"
    by (rule digitsValue_nines)
  also have "roundFraction (10 ^ 309 - 1) 1 = PosInfinity"
    by (simp add: roundFraction_def)
  finally show ?thesis .
qed


section \<open>Properties of the sort engine\<close>

subsection \<open>Length, and the products without a price\<close>

lemma length_insertSorted: "length (insertSorted cmp x ys) = Suc (length ys)"
  by (induction ys) simp_all

lemma length_arraySort: "length (arraySort cmp xs) = length xs"
  by (induction xs) (simp_all add: arraySort_def length_insertSorted)

lemma mset_insertSorted: "mset (insertSorted cmp x ys) = add_mset x (mset ys)"
  by (induction ys) simp_all

lemma mset_arraySort: "mset (arraySort cmp xs) = mset xs"
  by (induction xs) (simp_all add: arraySort_def mset_insertSorted)





subsection \<open>The comparators and the key\<close>













section \<open>The loop over the pages\<close>

lemma fetchPage_eq:
  "fetchPage n (acc, st) =
     (acc @ productsOnPage st n,
      st\<lparr>effects := effects st @ (if n = 1 then [] else [Fetch n])\<rparr>)"
  by (simp add: fetchPage_def productsOnPage_def Let_def split: option.splits sum.splits)

lemma productsOnPage_effects [simp]:
  "productsOnPage (st\<lparr>effects := es\<rparr>) = productsOnPage st"
  by (rule ext) (simp add: productsOnPage_def split: sum.splits)

lemma fold_fetchPage:
  "fold fetchPage [a..<b] (acc, st) =
     (acc @ concat (map (productsOnPage st) [a..<b]),
      st\<lparr>effects := effects st @ map Fetch (filter (\<lambda>n. n \<noteq> 1) [a..<b])\<rparr>)"
proof (induction "b - a" arbitrary: a acc st)
  case 0
  then show ?case by simp
next
  case (Suc k)
  then have ab: "a < b" and k: "k = b - Suc a" by simp_all
  from ab have "[a..<b] = a # [Suc a..<b]" by (simp add: upt_conv_Cons)
  with Suc.hyps(1) [OF k] show ?case
    by (simp add: fetchPage_eq)
qed

lemma fetchPages_terminates:
  assumes "r < 2 ^ 53" "1 \<le> n"
  shows "fetchPages n (Num r) acc = Some (fold fetchPage [n..<Suc (nat \<lfloor>r\<rfloor>)] acc)"
  using assms(2)
proof (induction "Suc (nat \<lfloor>r\<rfloor>) - n" arbitrary: n acc)
  case 0
  then have "nat \<lfloor>r\<rfloor> < n" by simp
  then have "\<lfloor>r\<rfloor> < int n" by linarith
  then have "r < of_nat n"
    by (metis floor_less_iff of_int_of_nat_eq)
  then have "\<not> lessEq (Num (of_nat n)) (Num r)" by simp
  moreover from 0 have "[n..<Suc (nat \<lfloor>r\<rfloor>)] = []" by simp
  ultimately show ?case
    by (subst fetchPages.simps) simp
next
  case (Suc k)
  then have le: "n \<le> nat \<lfloor>r\<rfloor>" by simp
  with Suc.prems have "int n \<le> \<lfloor>r\<rfloor>" by linarith
  then have nr: "of_nat n \<le> r"
    by (metis le_floor_iff of_int_of_nat_eq)
  with assms(1) have "(of_nat n :: rat) < 2 ^ 53" by simp
  then have "(of_nat n :: rat) < of_nat (2 ^ 53)" by simp
  then have "n < 2 ^ 53" by (simp only: of_nat_less_iff)
  then have inc: "increment n = Suc n" by (simp add: increment_def)
  from Suc.hyps(2) have k: "k = Suc (nat \<lfloor>r\<rfloor>) - Suc n" by simp
  from le have "[n..<Suc (nat \<lfloor>r\<rfloor>)] = n # [Suc n..<Suc (nat \<lfloor>r\<rfloor>)]"
    by (simp add: upt_conv_Cons)
  with Suc.hyps(1) [OF k, of "fetchPage n acc"] nr inc show ?case
    by (subst fetchPages.simps) simp
qed

lemma fetchPages_diverges:
  assumes "fetchPages n maxPage acc = Some res"
  shows "\<not> (n \<le> 2 ^ 53 \<and> lessEq (Num (2 ^ 53)) maxPage)"
proof (rule fetchPages.raw_induct
    [where P = "\<lambda>n maxPage acc res. \<not> (n \<le> 2 ^ 53 \<and> lessEq (Num (2 ^ 53)) maxPage)", OF _ assms])
  fix f :: "nat \<Rightarrow> number \<Rightarrow> pageProduct list \<times> state \<Rightarrow> (pageProduct list \<times> state) option"
    and n maxPage acc res
  assume ih: "\<And>n maxPage acc res. f n maxPage acc = Some res \<Longrightarrow>
      \<not> (n \<le> 2 ^ 53 \<and> lessEq (Num (2 ^ 53)) maxPage)"
    and body: "(if lessEq (Num (of_nat n)) maxPage
        then f (increment n) maxPage (fetchPage n acc) else Some acc) = Some res"
  show "\<not> (n \<le> 2 ^ 53 \<and> lessEq (Num (2 ^ 53)) maxPage)"
  proof
    assume stuck: "n \<le> 2 ^ 53 \<and> lessEq (Num (2 ^ 53)) maxPage"
    then have "(of_nat n :: rat) \<le> of_nat (2 ^ 53)"
      by (simp only: of_nat_le_iff)
    with stuck have "lessEq (Num (of_nat n)) maxPage"
      by (cases maxPage) simp_all
    with body have "f (increment n) maxPage (fetchPage n acc) = Some res"
      by simp
    then have "\<not> (increment n \<le> 2 ^ 53 \<and> lessEq (Num (2 ^ 53)) maxPage)"
      by (rule ih)
    moreover from stuck have "increment n \<le> 2 ^ 53"
      by (simp add: increment_def)
    ultimately show False using stuck by simp
  qed
qed

lemma pageNumber_cases:
  "pageNumber s = None \<or> pageNumber s = Some PosInfinity \<or> (\<exists>r\<ge>0. pageNumber s = Some (Num r))"
proof (cases "dropWhile (\<lambda>c. \<not> isDigit c) s")
  case Nil
  show ?thesis unfolding pageNumber_def Nil by simp
next
  case (Cons c cs)
  have "0 \<le> digitsValue (takeWhile isDigit (c # cs))"
    using digitsValue_bounds [OF takeWhile_isDigit_digits, of "c # cs"] ..
  from roundFraction_cases [OF this, of 1] show ?thesis
    unfolding pageNumber_def Cons by simp
qed

lemma maxPageOf_cases:
  "maxPageOf d = PosInfinity \<or> (\<exists>r\<ge>1. maxPageOf d = Num r)"
proof -
  let ?step = "\<lambda>link maxPage.
     case pageNumber (textContentOf d link) of
       None \<Rightarrow> maxPage
     | Some pageNum \<Rightarrow> if greater pageNum maxPage then pageNum else maxPage"
  have "fold ?step links m = PosInfinity \<or> (\<exists>r\<ge>1. fold ?step links m = Num r)"
    if "m = PosInfinity \<or> (\<exists>r\<ge>1. m = Num r)" for links m
    using that
  proof (induction links arbitrary: m)
    case Nil
    then show ?case by simp
  next
    case (Cons link links)
    have "?step link m = PosInfinity \<or> (\<exists>r\<ge>1. ?step link m = Num r)"
    proof (cases "pageNumber (textContentOf d link)")
      case None
      with Cons.prems show ?thesis by simp
    next
      case (Some pageNum)
      show ?thesis
      proof (cases "greater pageNum m")
        case False
        with Some Cons.prems show ?thesis by simp
      next
        case True
        from pageNumber_cases [of "textContentOf d link"] Some
        consider "pageNum = PosInfinity" | r where "0 \<le> r" "pageNum = Num r"
          by auto
        then show ?thesis
        proof cases
          case 1
          with Some True show ?thesis by simp
        next
          case 2
          with True Cons.prems obtain r' where "1 \<le> r'" "m = Num r'" "r' < r"
            by auto
          then have "1 \<le> r" by simp
          with 2 Some True show ?thesis by simp
        qed
      qed
    qed
    from Cons.IH [OF this] show ?case by simp
  qed
  from this [of "Num 1"] show ?thesis
    by (simp add: maxPageOf_def)
qed

lemma filter_not_first_page: "filter (\<lambda>n. n \<noteq> Suc 0) [Suc 0..<m] = [2..<m]"
proof (cases "Suc 0 < m")
  case False
  then show ?thesis by simp
next
  case True
  then have "[Suc 0..<m] = Suc 0 # [2..<m]"
    by (simp add: upt_conv_Cons numeral_2_eq_2)
  moreover have "filter (\<lambda>n. n \<noteq> Suc 0) [2..<m] = [2..<m]"
    by (rule filter_True) simp
  ultimately show ?thesis by simp
qed

lemma fetchAllProducts_Some:
  assumes "fetchAllProducts st = Some (allProducts, st')"
  shows "\<exists>n. allProducts = concat (map (productsOnPage st) [1..<Suc n]) \<and>
             st' = st\<lparr>effects := effects st @ map Fetch [2..<Suc n]\<rparr>"
proof -
  from assms have run: "fetchPages 1 (maxPageOf (document st)) ([], st) = Some (allProducts, st')"
    by (simp add: fetchAllProducts_def)
  from fetchPages_diverges [OF run]
  have bound: "\<not> lessEq (Num (2 ^ 53)) (maxPageOf (document st))" by simp
  with maxPageOf_cases [of "document st"]
  obtain r where r: "maxPageOf (document st) = Num r" "r < 2 ^ 53"
    by auto
  from fetchPages_terminates [OF r(2), of 1 "([], st)"] run r(1)
  have res: "(allProducts, st') = fold fetchPage [1..<Suc (nat \<lfloor>r\<rfloor>)] ([], st)"
    by simp
  from res have "allProducts = concat (map (productsOnPage st) [1..<Suc (nat \<lfloor>r\<rfloor>)]) \<and>
      st' = st\<lparr>effects := effects st @ map Fetch [2..<Suc (nat \<lfloor>r\<rfloor>)]\<rparr>"
    by (simp add: fold_fetchPage filter_not_first_page del: upt_Suc)
  then show ?thesis by blast
qed

lemma fetchAllProducts_returns:
  assumes "maxPageOf (document st) = Num r" "r < 2 ^ 53"
  shows "fetchAllProducts st =
    Some (concat (map (productsOnPage st) [1..<Suc (nat \<lfloor>r\<rfloor>)]),
          st\<lparr>effects := effects st @ map Fetch [2..<Suc (nat \<lfloor>r\<rfloor>)]\<rparr>)"
  using fetchPages_terminates [OF assms(2), of 1 "([], st)"] assms(1)
  by (simp add: fetchAllProducts_def fold_fetchPage filter_not_first_page del: upt_Suc)

lemma productsOnPage_cong:
  "document st' = document st \<Longrightarrow> network st' = network st \<Longrightarrow>
   productsOnPage st' n = productsOnPage st n"
  by (simp add: productsOnPage_def split: sum.splits)

section \<open>The global sort of a page with pagination\<close>

text \<open>The state in which the global sort returns, when it returns.\<close>

lemma global_paginated:
  assumes "hasPagination (document st)"
    and "sortByUnitPriceGlobally asc st = Some st'"
  shows "\<exists>n. let allProducts = concat (map (productsOnPage st) [1..<Suc n]);
               st2 = st\<lparr>currentSortState := Some \<lparr>ascending = asc, global = True\<rparr>,
                       effects := effects st @ Notification LoadingAllPages # map Fetch [2..<Suc n],
                       allProductsData := allProducts\<rparr>
           in st' = (if allProducts = [] then alert NothingToSort st2
                     else showNotification (ShownAll (length allProducts) asc)
                            (hidePagination
                               (replaceCurrentPageProducts (sortedAll asc allProducts) st2)))"
proof -
  let ?st = "showNotification LoadingAllPages
      (st\<lparr>currentSortState := Some \<lparr>ascending = asc, global = True\<rparr>\<rparr>)"
  from assms obtain allProducts st1 where fetched: "fetchAllProducts ?st = Some (allProducts, st1)"
    by (auto simp add: sortByUnitPriceGlobally_def split: option.splits)
  from fetchAllProducts_Some [OF this] obtain n
    where n: "allProducts = concat (map (productsOnPage ?st) [1..<Suc n])"
      "st1 = ?st\<lparr>effects := effects ?st @ map Fetch [2..<Suc n]\<rparr>"
    by blast
  have same: "productsOnPage ?st = productsOnPage st"
    by (rule ext, rule productsOnPage_cong) (simp_all add: showNotification_def)
  define pages where "pages = map Fetch [2..<Suc n]"
  define every where "every = concat (map (productsOnPage st) [1..<Suc n])"
  have all: "allProducts = every"
    unfolding every_def n(1) same ..
  have st1: "st1 = st\<lparr>currentSortState := Some \<lparr>ascending = asc, global = True\<rparr>,
      effects := effects st @ Notification LoadingAllPages # pages\<rparr>"
    unfolding n(2) pages_def by (simp add: showNotification_def)
  from assms fetched
  have "st' = (if every = [] then alert NothingToSort (st1\<lparr>allProductsData := every\<rparr>)
     else showNotification (ShownAll (length every) asc)
            (hidePagination
               (replaceCurrentPageProducts (sortedAll asc every)
                  (st1\<lparr>allProductsData := every\<rparr>))))"
    by (auto simp add: sortByUnitPriceGlobally_def all Let_def split: if_splits)
  then have "let allProducts = concat (map (productsOnPage st) [1..<Suc n]);
               st2 = st\<lparr>currentSortState := Some \<lparr>ascending = asc, global = True\<rparr>,
                       effects := effects st @ Notification LoadingAllPages # map Fetch [2..<Suc n],
                       allProductsData := allProducts\<rparr>
           in st' = (if allProducts = [] then alert NothingToSort st2
                     else showNotification (ShownAll (length allProducts) asc)
                            (hidePagination
                               (replaceCurrentPageProducts (sortedAll asc allProducts) st2)))"
    unfolding Let_def every_def [symmetric] pages_def [symmetric] st1 by simp
  then show ?thesis ..
qed


text \<open>The case of the examples: the largest page number is 2.\<close>

lemma global_two_pages:
  assumes "hasPagination (document st)" "maxPageOf (document st) = Num 2"
    and "st2 = st\<lparr>currentSortState := Some \<lparr>ascending = asc, global = True\<rparr>,
                   effects := effects st @ [Notification LoadingAllPages, Fetch 2],
                   allProductsData := concat (map (productsOnPage st) [1, 2])\<rparr>"
  shows "sortByUnitPriceGlobally asc st =
    Some (if concat (map (productsOnPage st) [1, 2]) = [] then alert NothingToSort st2
          else showNotification (ShownAll (length (concat (map (productsOnPage st) [1, 2]))) asc)
                 (hidePagination
                    (replaceCurrentPageProducts
                       (sortedAll asc (concat (map (productsOnPage st) [1, 2]))) st2)))"
proof -
  let ?st = "showNotification LoadingAllPages
      (st\<lparr>currentSortState := Some \<lparr>ascending = asc, global = True\<rparr>\<rparr>)"
  define every where "every = concat (map (productsOnPage st) [1, 2])"
  have pages: "[1..<Suc (nat \<lfloor>2::rat\<rfloor>)] = [1, 2]" "[2..<Suc (nat \<lfloor>2::rat\<rfloor>)] = [2]"
    by (simp_all add: upt_rec)
  have same: "productsOnPage ?st = productsOnPage st"
    by (rule ext, rule productsOnPage_cong) (simp_all add: showNotification_def)
  have maxPage: "maxPageOf (document ?st) = Num 2"
    using assms(2) by (simp add: showNotification_def)
  have "(2::rat) < 2 ^ 53" by simp
  note fetchAllProducts_returns [OF maxPage this, unfolded pages same every_def [symmetric]]
  then have fetched: "fetchAllProducts ?st =
      Some (every, st\<lparr>currentSortState := Some \<lparr>ascending = asc, global = True\<rparr>,
                     effects := effects st @ [Notification LoadingAllPages, Fetch 2]\<rparr>)"
    by (simp add: showNotification_def)
  have st2: "st2 = st\<lparr>currentSortState := Some \<lparr>ascending = asc, global = True\<rparr>,
                   effects := effects st @ [Notification LoadingAllPages, Fetch 2],
                   allProductsData := every\<rparr>"
    unfolding every_def by (rule assms(3))
  have "sortByUnitPriceGlobally asc st =
    Some (if every = [] then alert NothingToSort st2
          else showNotification (ShownAll (length every) asc)
                 (hidePagination (replaceCurrentPageProducts (sortedAll asc every) st2)))"
    using assms(1) by (simp add: sortByUnitPriceGlobally_def fetched st2)
  then show ?thesis unfolding every_def .
qed

text \<open>The global sort of a page with pagination leaves the sort maintainer alone.\<close>

lemma appendProduct_monitoring:
  "intervals (appendProduct c p st) = intervals st \<and>
   observers (appendProduct c p st) = observers st \<and>
   sortMaintainerInterval (appendProduct c p st) = sortMaintainerInterval st \<and>
   containerObserver (appendProduct c p st) = containerObserver st \<and>
   effects (appendProduct c p st) = effects st \<and>
   allProductsData (appendProduct c p st) = allProductsData st"
  by (simp add: appendProduct_def split: prod.splits)

lemma fold_appendProduct_monitoring:
  "intervals (fold (appendProduct c) ps st) = intervals st \<and>
   observers (fold (appendProduct c) ps st) = observers st \<and>
   sortMaintainerInterval (fold (appendProduct c) ps st) = sortMaintainerInterval st \<and>
   containerObserver (fold (appendProduct c) ps st) = containerObserver st \<and>
   effects (fold (appendProduct c) ps st) = effects st \<and>
   allProductsData (fold (appendProduct c) ps st) = allProductsData st"
  by (induction ps arbitrary: st) (simp_all add: appendProduct_monitoring)

lemma replaceCurrentPageProducts_monitoring:
  "intervals (replaceCurrentPageProducts ps st) = intervals st \<and>
   observers (replaceCurrentPageProducts ps st) = observers st \<and>
   sortMaintainerInterval (replaceCurrentPageProducts ps st) = sortMaintainerInterval st \<and>
   containerObserver (replaceCurrentPageProducts ps st) = containerObserver st \<and>
   effects (replaceCurrentPageProducts ps st) = effects st \<and>
   allProductsData (replaceCurrentPageProducts ps st) = allProductsData st"
  by (simp add: replaceCurrentPageProducts_def Let_def fold_appendProduct_monitoring
      split: option.splits)

lemma alerts_append: "alerts (xs @ ys) = alerts xs @ alerts ys"
  by (induction xs rule: alerts.induct) simp_all

lemma alerts_Fetch: "alerts (map Fetch ns) = []"
  by (induction ns) simp_all

lemma fetches_append: "fetches (xs @ ys) = fetches xs @ fetches ys"
  by (induction xs rule: fetches.induct) simp_all



section \<open>Writing to elements keeps the shape of the tree\<close>

lemma walk_mapElements:
  "walk (map (\<lambda>(j, f). (j, g j f)) ancestors) (mapElements g d) =
     map (entryMap g) (walk ancestors d)"
proof (induction d arbitrary: ancestors)
  case (TextNode t)
  show ?case by simp
next
  case (Element i e cs)
  have "walk ((i, g i e) # map (\<lambda>(j, f). (j, g j f)) ancestors) (mapElements g c) =
      map (entryMap g) (walk ((i, e) # ancestors) c)" if "c \<in> set cs" for c
    using Element.IH [OF that, of "(i, e) # ancestors"] by simp
  then have below:
    "map (\<lambda>c. walk ((i, g i e) # map (\<lambda>(j, f). (j, g j f)) ancestors) (mapElements g c)) cs =
      map (\<lambda>c. map (entryMap g) (walk ((i, e) # ancestors) c)) cs"
    by (intro map_ext) simp
  have head: "entryMap g (i, e, cs, ancestors) =
      (i, g i e, map (mapElements g) cs, map (\<lambda>(j, f). (j, g j f)) ancestors)"
    by (simp add: entryMap_def)
  show ?case
    by (simp add: head map_concat comp_def below)
qed

lemma walk_mapElements_root: "walk [] (mapElements g d) = map (entryMap g) (walk [] d)"
  using walk_mapElements [of g "[]" d] by simp

lemma mapElements_comp:
  "mapElements f (mapElements g d) = mapElements (\<lambda>i e. f i (g i e)) d"
  by (induction d) simp_all

lemma mapElements_cong:
  "(\<And>i e. f i e = g i e) \<Longrightarrow> mapElements f d = mapElements g d"
  by (induction d) simp_all

lemma mapElements_id: "mapElements (\<lambda>i e. e) d = d"
  by (induction d) (simp_all add: map_idI)

lemma textContent_mapElements: "textContent (mapElements g d) = textContent d"
  by (induction d) (simp_all add: comp_def cong: map_cong)

lemma elementIds_mapElements: "elementIds (map (mapElements g) cs) = elementIds cs"
  by (induction cs rule: elementIds.induct) simp_all

lemma fst_entryMap: "fst (entryMap g en) = fst en"
  by (cases en) (simp add: entryMap_def)

lemma find_map_fst:
  assumes "\<And>x. fst (h x) = fst x"
  shows "find (\<lambda>en. fst en = i) (map h xs) = map_option h (find (\<lambda>en. fst en = i) xs)"
  by (induction xs) (simp_all add: assms)

lemma entryOf_mapElements:
  "entryOf (mapElements g d) i = map_option (entryMap g) (entryOf d i)"
  by (simp add: entryOf_def walk_mapElements_root find_map_fst fst_entryMap)

lemma parentElement_mapElements: "parentElement (mapElements g d) i = parentElement d i"
proof (cases "entryOf d i")
  case None
  then show ?thesis by (simp add: parentElement_def entryOf_mapElements)
next
  case (Some en)
  obtain j e cs ancestors where en: "en = (j, e, cs, ancestors)" by (cases en)
  with Some show ?thesis
    by (cases ancestors) (auto simp: parentElement_def entryOf_mapElements entryMap_def)
qed

lemma elementOf_mapElements:
  "elementOf (mapElements g d) i = map_option (g i) (elementOf d i)"
proof (cases "entryOf d i")
  case None
  then show ?thesis by (simp add: elementOf_def entryOf_mapElements)
next
  case (Some en)
  obtain j e cs ancestors where en: "en = (j, e, cs, ancestors)" by (cases en)
  from Some have "fst en = i"
    by (auto simp: entryOf_def dest: find_Some_iff [THEN iffD1])
  with en Some show ?thesis
    by (simp add: elementOf_def entryOf_mapElements entryMap_def)
qed

lemma textContentOf_mapElements: "textContentOf (mapElements g d) i = textContentOf d i"
proof (cases "entryOf d i")
  case None
  then show ?thesis by (simp add: textContentOf_def entryOf_mapElements)
next
  case (Some en)
  obtain j e cs ancestors where en: "en = (j, e, cs, ancestors)" by (cases en)
  with Some show ?thesis
    by (simp add: textContentOf_def entryOf_mapElements entryMap_def comp_def
        textContent_mapElements)
qed

lemma children_mapElements: "children (mapElements g d) i = children d i"
proof (cases "entryOf d i")
  case None
  then show ?thesis by (simp add: children_def entryOf_mapElements)
next
  case (Some en)
  obtain j e cs ancestors where en: "en = (j, e, cs, ancestors)" by (cases en)
  with Some show ?thesis
    by (simp add: children_def entryOf_mapElements entryMap_def elementIds_mapElements)
qed

lemma elementsOf_mapElements:
  "elementsOf (mapElements g d) = map (\<lambda>(i, e). (i, g i e)) (elementsOf d)"
  by (simp add: elementsOf_def walk_mapElements_root entryMap_def comp_def case_prod_unfold)

lemma updateElement_mapElements:
  "updateElement i f (mapElements g d) = mapElements (\<lambda>j e. if j = i then f (g j e) else g j e) d"
  by (simp add: updateElement_def mapElements_comp)

text \<open>
  Writes that leave the kind of element, the tag, the classes and the attributes alone change
  no query.
\<close>

lemma matchesSimple_neutral:
  assumes "namespace e' = namespace e" "tagName e' = tagName e" "classList e' = classList e"
    "attributes e' = attributes e"
  shows "matchesSimple e' s = matchesSimple e s"
  using assms by (cases s) (simp_all add: className_def)

lemma matchesCompound_neutral:
  assumes "namespace e' = namespace e" "tagName e' = tagName e" "classList e' = classList e"
    "attributes e' = attributes e"
  shows "matchesCompound e' c = matchesCompound e c"
  using matchesSimple_neutral [OF assms] by (simp add: matchesCompound_def list_all_iff)

lemma matches_neutral:
  assumes "selectorNeutral g"
  shows "matches (entryMap g en) sel = matches en sel"
proof -
  obtain i e cs ancestors where en: "en = (i, e, cs, ancestors)" by (cases en)
  have el: "matchesCompound (g j f) c = matchesCompound f c" for j f c
    using assms by (intro matchesCompound_neutral) (simp_all add: selectorNeutral_def)
  have "matchesComplex (entryMap g en) x = matchesComplex en x" for x
    by (cases x) (simp_all add: en entryMap_def el list_ex_iff case_prod_unfold)
  then show ?thesis by (simp add: matches_def list_ex_iff)
qed

lemma querySelectorAll_neutral:
  assumes "selectorNeutral g"
  shows "querySelectorAll (mapElements g d) sel = querySelectorAll d sel"
  by (simp add: querySelectorAll_def walk_mapElements_root filter_map comp_def
      matches_neutral [OF assms] fst_entryMap)

lemma querySelectorAllIn_neutral:
  assumes "selectorNeutral g"
  shows "querySelectorAllIn (mapElements g d) scope sel = querySelectorAllIn d scope sel"
proof -
  have "(case entryMap g en of (i, e, cs, ancestors) \<Rightarrow>
          scope \<in> fst ` set ancestors \<and> matches (i, e, cs, ancestors) sel) =
        (case en of (i, e, cs, ancestors) \<Rightarrow>
          scope \<in> fst ` set ancestors \<and> matches (i, e, cs, ancestors) sel)" for en
  proof -
    obtain i e cs ancestors where en: "en = (i, e, cs, ancestors)" by (cases en)
    have "fst ` set (map (\<lambda>(j, f). (j, g j f)) ancestors) = fst ` set ancestors"
      by (force simp: image_iff)
    with matches_neutral [OF assms, of en sel] show ?thesis
      by (simp add: en entryMap_def)
  qed
  then show ?thesis
    by (simp add: querySelectorAllIn_def walk_mapElements_root filter_map comp_def fst_entryMap)
qed

section \<open>The rounds of the rank assignment\<close>

lemma applyRank_mapElements:
  "applyRank container (p, k) (mapElements h d, rules) =
     (mapElements (\<lambda>j e. if element p = j \<and> parentElement d j = Some container
                          then markSorted k (unitPrice p) (h j e) else h j e) d,
      rules @ (if parentElement d (element p) = Some container then [(sortClass k, k)] else []))"
proof (cases "parentElement d (element p) = Some container")
  case True
  then have "mapElements (\<lambda>j e. if j = element p then markSorted k (unitPrice p) (h j e) else h j e) d =
      mapElements (\<lambda>j e. if element p = j \<and> parentElement d j = Some container
                          then markSorted k (unitPrice p) (h j e) else h j e) d"
    by (intro mapElements_cong) auto
  with True show ?thesis
    by (simp add: applyRank_def parentElement_mapElements updateElement_mapElements)
next
  case False
  then have "mapElements h d =
      mapElements (\<lambda>j e. if element p = j \<and> parentElement d j = Some container
                          then markSorted k (unitPrice p) (h j e) else h j e) d"
    by (intro mapElements_cong) auto
  with False show ?thesis
    by (simp add: applyRank_def parentElement_mapElements)
qed

lemma fold_applyRank:
  "fold (applyRank container) zs (mapElements h d, rules) =
     (mapElements (\<lambda>j e. marksOn container d zs j (h j e)) d, rules @ rulesOf container d zs)"
proof (induction zs arbitrary: h rules)
  case Nil
  show ?case by simp
next
  case (Cons z zs)
  obtain p k where z: "z = (p, k)" by (cases z)
  show ?case
    by (simp add: z applyRank_mapElements Cons.IH)
qed

lemma marksOn_absent:
  "j \<notin> set (map (element \<circ> fst) zs) \<Longrightarrow> marksOn container d zs j e = e"
  by (induction zs arbitrary: e) auto

lemma marksOn_distinct:
  assumes "distinct (map (element \<circ> fst) zs)"
  shows "(\<forall>e. marksOn container d zs j e = e) \<or>
         (\<exists>k price. \<forall>e. marksOn container d zs j e = markSorted k price e)"
  using assms
proof (induction zs)
  case Nil
  show ?case by simp
next
  case (Cons z zs)
  obtain p k where z: "z = (p, k)" by (cases z)
  show ?case
  proof (cases "element p = j")
    case True
    with Cons.prems z have "j \<notin> set (map (element \<circ> fst) zs)" by auto
    then have "marksOn container d zs j e = e" for e
      by (rule marksOn_absent)
    then show ?thesis
      by (cases "parentElement d j = Some container") (auto simp: z True)
  next
    case False
    with Cons z show ?thesis by simp
  qed
qed

subsection \<open>Marking twice\<close>

lemma update_twice: "AList.update k v (AList.update k v al) = AList.update k v al"
  by (rule update_triv) (simp add: update_conv')

lemma addClass_present: "c \<in> set (classList e) \<Longrightarrow> addClass c e = e"
  by (simp add: addClass_def)

lemma addClass_mem: "c \<in> set (classList (addClass c e))"
  by (simp add: addClass_def)

lemma addClass_mono: "c \<in> set (classList e) \<Longrightarrow> c \<in> set (classList (addClass c' e))"
  by (simp add: addClass_def)

lemma markSorted_twice: "markSorted k price (markSorted k price e) = markSorted k price e"
proof -
  define x where "x = markSorted k price e"
  let ?e1 = "addClass ''konzum-sorted'' (addClass (sortClass k) e)"
  have cls: "sortClass k \<in> set (classList ?e1)" "''konzum-sorted'' \<in> set (classList ?e1)"
    by (simp_all add: addClass_mem addClass_mono)
  have "classList x = classList ?e1"
    by (simp add: x_def markSorted_def setAttribute_def setProperty_def)
  with cls have classes: "addClass ''konzum-sorted'' (addClass (sortClass k) x) = x"
    by (simp add: addClass_present)
  have order: "setProperty ''order'' (natToString k) True x = x"
    by (simp add: x_def markSorted_def setAttribute_def setProperty_def update_twice)
  have attrs: "AList.update ''data-sort-order'' v1
        (AList.update ''data-unit-price'' v2 (AList.update ''data-sort-order'' v1 al)) =
      AList.update ''data-unit-price'' v2 (AList.update ''data-sort-order'' v1 al)" for v1 v2 al
    by (rule update_triv) (simp add: update_conv')
  have rank: "setAttribute ''data-sort-order'' (Str (natToString k)) x = x"
    by (simp add: x_def markSorted_def setAttribute_def setProperty_def attrs)
  have price: "setAttribute ''data-unit-price'' (unitPriceAttribute price) x = x"
    by (simp add: x_def markSorted_def setAttribute_def setProperty_def update_twice)
  have "markSorted k price x = x"
    by (simp only: markSorted_def [of k price x] classes order rank price)
  then show ?thesis by (simp only: x_def)
qed

lemma getPropertyValue_setProperty:
  "getPropertyValue (setProperty p v important e) q =
     (if q = p then v else getPropertyValue e q)"
  by (simp add: getPropertyValue_def setProperty_def update_conv')

lemma getPropertyValue_setAttribute [simp]:
  "getPropertyValue (setAttribute a v e) q = getPropertyValue e q"
  by (simp add: getPropertyValue_def setAttribute_def)

lemma getPropertyValue_addClass [simp]:
  "getPropertyValue (addClass c e) q = getPropertyValue e q"
  by (simp add: getPropertyValue_def addClass_def)

lemma flexed_ensureFlex: "flexed (ensureFlex e)"
  by (simp add: flexed_def ensureFlex_def Let_def getPropertyValue_setProperty)

lemma ensureFlex_flexed: "flexed e \<Longrightarrow> ensureFlex e = e"
  by (simp add: flexed_def ensureFlex_def Let_def)

lemma flexed_markSorted: "flexed e \<Longrightarrow> flexed (markSorted k price e)"
  by (simp add: flexed_def markSorted_def getPropertyValue_setProperty)

lemma selectorNeutral_ensureFlex:
  "selectorNeutral (\<lambda>j e. if j = container then ensureFlex e else e)"
  by (simp add: selectorNeutral_def ensureFlex_def Let_def setProperty_def)

section \<open>The local sort\<close>

lemma firstElementPrice_mapElements:
  "firstElementPrice (mapElements g d) elems = firstElementPrice d elems"
  by (induction elems) (auto simp: textContentOf_mapElements split: option.splits)

lemma extractUnitPrice_neutral:
  assumes "selectorNeutral g"
  shows "extractUnitPrice (mapElements g d) c = extractUnitPrice d c"
  by (auto simp: extractUnitPrice_def textContentOf_mapElements firstElementPrice_mapElements
      querySelectorAllIn_neutral [OF assms] split: option.splits)

lemma extractProducts_neutral:
  assumes "selectorNeutral g"
  shows "extractProducts (mapElements g d) cards = extractProducts d cards"
  by (simp add: extractProducts_def extractUnitPrice_neutral [OF assms])

lemma parseUnitPrice_not_NaN: "parseUnitPrice t \<noteq> Some NaN"
  using parseUnitPrice_cases [of t] by auto

lemma firstElementPrice_not_NaN: "firstElementPrice d elems \<noteq> Some NaN"
proof (induction elems)
  case Nil
  show ?case by simp
next
  case (Cons elem elems)
  then show ?case
    using parseUnitPrice_not_NaN by (auto split: option.splits)
qed

lemma extractUnitPrice_not_NaN: "extractUnitPrice d c \<noteq> Some NaN"
  using parseUnitPrice_not_NaN firstElementPrice_not_NaN
  by (auto simp: extractUnitPrice_def split: option.splits)

lemma extractProducts_no_NaN: "\<forall>p\<in>set (extractProducts d cards). unitPrice p \<noteq> Some NaN"
  by (auto simp: extractProducts_def extractUnitPrice_not_NaN)

lemma map_element_extractProducts: "map element (extractProducts d cards) = cards"
  by (simp add: extractProducts_def comp_def case_prod_unfold map_fst_zip [unfolded comp_def])

lemma sortByUnitPrice_throws:
  assumes "getProductCards (document st) = Inl err"
  shows "sortByUnitPrice asc st =
    st\<lparr>currentSortState := Some \<lparr>ascending = asc, global = False\<rparr>,
       effects := effects st @ [Uncaught err]\<rparr>"
  using assms by (simp add: sortByUnitPrice_def throw_def)

lemma sortByUnitPrice_nothing:
  assumes "getProductCards (document st) = Inr []"
  shows "sortByUnitPrice asc st =
    st\<lparr>currentSortState := Some \<lparr>ascending = asc, global = False\<rparr>,
       effects := effects st @ [Alert NothingToSortReload]\<rparr>"
  using assms by (simp add: sortByUnitPrice_def alert_def)

lemma sortByUnitPrice_no_parent:
  assumes "getProductCards (document st) = Inr (first # rest)"
    "parentElement (document st) first = None"
  shows "sortByUnitPrice asc st = st\<lparr>currentSortState := Some \<lparr>ascending = asc, global = False\<rparr>\<rparr>"
  using assms by (simp add: sortByUnitPrice_def)

lemma sortByUnitPrice_ranked:
  assumes "getProductCards (document st) = Inr (first # rest)"
    "parentElement (document st) first = Some container"
  shows "sortByUnitPrice asc st =
    showNotification (SortedByUnitPrice asc)
      (setupSortMaintainer container
        (st\<lparr>currentSortState := Some \<lparr>ascending = asc, global = False\<rparr>,
            document := mapElements
              (\<lambda>j e. marksOn container (document st)
                 (zip (sortProducts asc (extractProducts (document st) (first # rest)))
                      [0..<Suc (length rest)]) j
                 (if j = container then ensureFlex e else e)) (document st),
            sortStyles := Some (rulesOf container (document st)
              (zip (sortProducts asc (extractProducts (document st) (first # rest)))
                   [0..<Suc (length rest)]))\<rparr>))"
proof -
  let ?flex = "\<lambda>j e. if j = container then ensureFlex e else e"
  let ?d1 = "updateElement container ensureFlex (document st)"
  have d1: "?d1 = mapElements ?flex (document st)"
    by (simp add: updateElement_def)
  have products: "extractProducts (mapElements ?flex (document st)) (first # rest) =
      extractProducts (document st) (first # rest)"
    by (rule extractProducts_neutral) (rule selectorNeutral_ensureFlex)
  have len: "length (sortProducts asc (extractProducts (document st) (first # rest))) =
      Suc (length rest)"
    by (simp add: sortProducts_def length_arraySort extractProducts_def)
  show ?thesis
    using assms
    by (simp add: sortByUnitPrice_def Let_def products len injectSortStyles_def
        d1 fold_applyRank del: upt_Suc)
qed

section \<open>Sorting twice\<close>

lemma document_setupSortMaintainer [simp]:
  "document (setupSortMaintainer container st) = document st"
  by (simp add: setupSortMaintainer_def Let_def clearInterval_def disconnect_def
      split: option.splits)

lemma sortStyles_setupSortMaintainer [simp]:
  "sortStyles (setupSortMaintainer container st) = sortStyles st"
  by (simp add: setupSortMaintainer_def Let_def clearInterval_def disconnect_def
      split: option.splits)

lemma effects_setupSortMaintainer [simp]:
  "effects (setupSortMaintainer container st) = effects st"
  by (simp add: setupSortMaintainer_def Let_def clearInterval_def disconnect_def
      split: option.splits)

lemma currentSortState_setupSortMaintainer [simp]:
  "currentSortState (setupSortMaintainer container st) = currentSortState st"
  by (simp add: setupSortMaintainer_def Let_def clearInterval_def disconnect_def
      split: option.splits)

lemma timeouts_setupSortMaintainer [simp]:
  "timeouts (setupSortMaintainer container st) = timeouts st"
  by (simp add: setupSortMaintainer_def Let_def clearInterval_def disconnect_def
      split: option.splits)

lemma marksOn_parent_cong:
  assumes "\<And>j. parentElement d' j = parentElement d j"
  shows "marksOn container d' zs j e = marksOn container d zs j e"
  by (induction zs arbitrary: e) (auto simp: assms)

lemma rulesOf_parent_cong:
  assumes "\<And>j. parentElement d' j = parentElement d j"
  shows "rulesOf container d' zs = rulesOf container d zs"
  by (induction zs) (auto simp: assms)

lemma extractProducts_cong:
  assumes "\<forall>c\<in>set cards. extractUnitPrice d' c = extractUnitPrice d c"
  shows "extractProducts d' cards = extractProducts d cards"
proof -
  have "fst z \<in> set cards" if "z \<in> set (zip cards [0..<length cards])" for z
    using that by (metis prod.collapse set_zip_leftD)
  with assms show ?thesis
    by (auto simp: extractProducts_def)
qed

lemma distinct_sorted_elements:
  assumes "distinct cards"
  shows "distinct (map (element \<circ> fst)
    (zip (sortProducts asc (extractProducts d cards)) [0..<length cards]))"
proof -
  let ?sorted = "sortProducts asc (extractProducts d cards)"
  have len: "length ?sorted = length cards"
    by (simp add: sortProducts_def length_arraySort extractProducts_def)
  have "mset (map element ?sorted) = mset (map element (extractProducts d cards))"
    by (simp add: sortProducts_def mset_arraySort)
  then have "mset (map element ?sorted) = mset cards"
    by (simp add: map_element_extractProducts)
  with assms have "distinct (map element ?sorted)"
    by (metis mset_eq_imp_distinct_iff)
  moreover have "map fst (zip ?sorted [0..<length cards]) = ?sorted"
    using len by (simp add: map_fst_zip)
  ultimately show ?thesis
    by (simp add: map_map [symmetric] del: map_map)
qed

lemma marks_twice:
  assumes "distinct (map (element \<circ> fst) zs)"
  shows "marksOn container d zs j (if j = container
           then ensureFlex (marksOn container d zs j (if j = container then ensureFlex e else e))
           else marksOn container d zs j (if j = container then ensureFlex e else e)) =
         marksOn container d zs j (if j = container then ensureFlex e else e)"
proof -
  have flex: "ensureFlex (ensureFlex x) = ensureFlex x" for x
    by (simp add: ensureFlex_flexed flexed_ensureFlex)
  have flexMark: "ensureFlex (markSorted k price (ensureFlex x)) = markSorted k price (ensureFlex x)"
    for k price x
    by (simp add: ensureFlex_flexed flexed_markSorted flexed_ensureFlex)
  from marksOn_distinct [OF assms(1), of container d j]
  consider "\<forall>e. marksOn container d zs j e = e"
    | k price where "\<forall>e. marksOn container d zs j e = markSorted k price e"
    by blast
  then show ?thesis
  proof cases
    case 1
    show ?thesis
    proof (cases "j = container")
      case True
      with 1 have "\<forall>e. marksOn container d zs container e = e" by simp
      with True show ?thesis by (simp add: flex)
    next
      case False
      with 1 show ?thesis by simp
    qed
  next
    case 2
    show ?thesis
    proof (cases "j = container")
      case True
      with 2 have "\<forall>e. marksOn container d zs container e = markSorted k price e" by simp
      with True show ?thesis by (simp add: flexMark markSorted_twice)
    next
      case False
      with 2 show ?thesis by (simp add: markSorted_twice)
    qed
  qed
qed

lemma example_sorted_single: "sortByUnitPrice True singlePageState = sortedSinglePageState"
  by code_simp

text \<open>
  Claim C5. Running \<open>sortByUnitPrice\<close> a second time on an unchanged item set (the locator
  ends in the same way, with the same cards in the same order, they have the same prices,
  and the cards are distinct elements) writes exactly what the first run wrote: the tree, with its classes,
  \<open>order\<close> declarations and \<open>data-sort-order\<close> attributes, and the injected rules are the
  same after two runs as after one.
\<close>

theorem resort_idempotent:
  assumes same_cards:
      "getProductCards (document (sortByUnitPrice asc st)) = getProductCards (document st)"
    and same_prices:
      "\<forall>c\<in>set (foundCards (document st)).
         extractUnitPrice (document (sortByUnitPrice asc st)) c = extractUnitPrice (document st) c"
    and distinct_cards: "distinct (foundCards (document st))"
  shows "document (sortByUnitPrice asc (sortByUnitPrice asc st)) =
           document (sortByUnitPrice asc st) \<and>
         sortStyles (sortByUnitPrice asc (sortByUnitPrice asc st)) =
           sortStyles (sortByUnitPrice asc st)"
proof (cases "getProductCards (document st)")
  case (Inl err)
  then have once: "sortByUnitPrice asc st =
      st\<lparr>currentSortState := Some \<lparr>ascending = asc, global = False\<rparr>,
         effects := effects st @ [Uncaught err]\<rparr>"
    by (rule sortByUnitPrice_throws)
  with Inl have "getProductCards (document (sortByUnitPrice asc st)) = Inl err" by simp
  from sortByUnitPrice_throws [OF this, of asc] show ?thesis by simp
next
  case (Inr cards)
  with same_prices distinct_cards
  have prices: "\<forall>c\<in>set cards.
      extractUnitPrice (document (sortByUnitPrice asc st)) c = extractUnitPrice (document st) c"
    and dist: "distinct cards"
    by (simp_all add: foundCards_def)
  show ?thesis
  proof (cases cards)
    case Nil
    with Inr have found: "getProductCards (document st) = Inr []" by simp
    then have once: "sortByUnitPrice asc st =
        st\<lparr>currentSortState := Some \<lparr>ascending = asc, global = False\<rparr>,
           effects := effects st @ [Alert NothingToSortReload]\<rparr>"
      by (rule sortByUnitPrice_nothing)
    with found have "getProductCards (document (sortByUnitPrice asc st)) = Inr []" by simp
    from sortByUnitPrice_nothing [OF this, of asc] show ?thesis by simp
  next
    case (Cons first rest)
    with Inr have found: "getProductCards (document st) = Inr (first # rest)" by simp
    show ?thesis
    proof (cases "parentElement (document st) first")
      case None
      with found have once: "sortByUnitPrice asc st =
          st\<lparr>currentSortState := Some \<lparr>ascending = asc, global = False\<rparr>\<rparr>"
        by (rule sortByUnitPrice_no_parent)
      with found None
      have "getProductCards (document (sortByUnitPrice asc st)) = Inr (first # rest)"
        "parentElement (document (sortByUnitPrice asc st)) first = None"
        by simp_all
      from sortByUnitPrice_no_parent [OF this, of asc] show ?thesis by simp
    next
      case (Some container)
      define d where "d = document st"
      define zs where
        "zs = zip (sortProducts asc (extractProducts d (first # rest))) [0..<Suc (length rest)]"
      define m where
        "m = (\<lambda>j e. marksOn container d zs j (if j = container then ensureFlex e else e))"
      define st1 where "st1 = sortByUnitPrice asc st"
      from sortByUnitPrice_ranked [OF found Some, of asc]
      have doc1: "document st1 = mapElements m d"
        and styles1: "sortStyles st1 = Some (rulesOf container d zs)"
        by (simp_all add: showNotification_def st1_def m_def zs_def d_def del: upt_Suc)
      have parents: "parentElement (document st1) j = parentElement d j" for j
        by (simp add: doc1 parentElement_mapElements)
      have cards1: "getProductCards (document st1) = Inr (first # rest)"
        using same_cards found by (simp add: st1_def)
      have parent1: "parentElement (document st1) first = Some container"
        using Some by (simp add: parents d_def)
      have products1: "extractProducts (document st1) (first # rest) =
          extractProducts d (first # rest)"
        unfolding st1_def d_def using prices Cons by (intro extractProducts_cong) simp
      from sortByUnitPrice_ranked [OF cards1 parent1, of asc]
      have doc2: "document (sortByUnitPrice asc st1) =
          mapElements (\<lambda>j e. marksOn container (document st1) zs j
            (if j = container then ensureFlex e else e)) (document st1)"
        and styles2: "sortStyles (sortByUnitPrice asc st1) =
          Some (rulesOf container (document st1) zs)"
        by (simp_all add: showNotification_def products1 zs_def del: upt_Suc)
      have "distinct (map (element \<circ> fst) zs)"
        using distinct_sorted_elements [of "first # rest" asc d] dist Cons
        by (simp add: zs_def del: upt_Suc)
      then have twice: "m j (m j e) = m j e" for j e
        using marks_twice [of zs container d j e] by (simp add: m_def)
      have "marksOn container (document st1) zs j e = marksOn container d zs j e" for j e
        by (rule marksOn_parent_cong) (rule parents)
      then have "document (sortByUnitPrice asc st1) = mapElements m (document st1)"
        by (simp only: doc2 m_def)
      also have "\<dots> = mapElements m (mapElements m d)"
        by (simp only: doc1)
      also have "\<dots> = mapElements (\<lambda>j e. m j (m j e)) d"
        by (rule mapElements_comp)
      also have "\<dots> = mapElements m d"
        by (rule mapElements_cong) (rule twice)
      finally have "document (sortByUnitPrice asc st1) = document st1"
        by (simp add: doc1)
      moreover have "sortStyles (sortByUnitPrice asc st1) = sortStyles st1"
        by (simp add: styles1 styles2 rulesOf_parent_cong [of "document st1" d, OF parents])
      ultimately show ?thesis by (simp add: st1_def)
    qed
  qed
qed

theorem resort_idempotent_witness:
  "getProductCards (document (sortByUnitPrice True singlePageState)) =
     getProductCards (document singlePageState) \<and>
   foundCards (document singlePageState) = [6, 7, 8] \<and>
   map (extractUnitPrice (document (sortByUnitPrice True singlePageState))) [6, 7, 8] =
     map (extractUnitPrice (document singlePageState)) [6, 7, 8] \<and>
   document (sortByUnitPrice True (sortByUnitPrice True singlePageState)) = sortedSinglePage \<and>
   sortStyles (sortByUnitPrice True (sortByUnitPrice True singlePageState)) =
     Some [(''konzum-sort-0'', 0), (''konzum-sort-1'', 1), (''konzum-sort-2'', 2)]"
proof -
  have before: "getProductCards (document singlePageState) = Inr [6, 7, 8]"
    unfolding singlePageState_def initialState_def by code_simp
  have "getProductCards sortedSinglePage = Inr [6, 7, 8]" by code_simp
  then have after:
    "getProductCards (document (sortByUnitPrice True singlePageState)) = Inr [6, 7, 8]"
    by (simp add: example_sorted_single sortedSinglePageState_def)
  have found: "foundCards (document singlePageState) = [6, 7, 8]"
    by (simp add: foundCards_def before)
  have "map (extractUnitPrice sortedSinglePage) [6, 7, 8] =
      map (extractUnitPrice singlePage) [6, 7, 8]"
    by code_simp
  then have prices: "map (extractUnitPrice (document (sortByUnitPrice True singlePageState)))
      [6, 7, 8] = map (extractUnitPrice (document singlePageState)) [6, 7, 8]"
    unfolding example_sorted_single
    by (simp add: sortedSinglePageState_def singlePageState_def initialState_def)
  then have same: "\<forall>c\<in>set (foundCards (document singlePageState)).
      extractUnitPrice (document (sortByUnitPrice True singlePageState)) c =
      extractUnitPrice (document singlePageState) c"
    unfolding found by simp
  have distinct: "distinct (foundCards (document singlePageState))"
    unfolding found by simp
  from resort_idempotent [OF _ same distinct] before after
  have "document (sortByUnitPrice True (sortByUnitPrice True singlePageState)) =
           document (sortByUnitPrice True singlePageState) \<and>
         sortStyles (sortByUnitPrice True (sortByUnitPrice True singlePageState)) =
           sortStyles (sortByUnitPrice True singlePageState)"
    by simp
  then have "document (sortByUnitPrice True (sortByUnitPrice True singlePageState)) =
      sortedSinglePage \<and>
    sortStyles (sortByUnitPrice True (sortByUnitPrice True singlePageState)) =
     Some [(''konzum-sort-0'', 0), (''konzum-sort-1'', 1), (''konzum-sort-2'', 2)]"
    unfolding example_sorted_single by (simp add: sortedSinglePageState_def)
  with before after found prices show ?thesis by simp
qed


section \<open>The global sort without pagination\<close>

lemma fetches_sortByUnitPrice: "fetches (effects (sortByUnitPrice asc st)) = fetches (effects st)"
proof (cases "getProductCards (document st)")
  case (Inl err)
  then show ?thesis
    by (simp add: sortByUnitPrice_throws fetches_append)
next
  case (Inr cards)
  show ?thesis
  proof (cases cards)
    case Nil
    with Inr show ?thesis
      by (simp add: sortByUnitPrice_nothing fetches_append)
  next
    case (Cons first rest)
    with Inr have found: "getProductCards (document st) = Inr (first # rest)" by simp
    show ?thesis
    proof (cases "parentElement (document st) first")
      case None
      with found show ?thesis by (simp add: sortByUnitPrice_no_parent)
    next
      case (Some container)
      from sortByUnitPrice_ranked [OF found Some, of asc] show ?thesis
        by (simp add: showNotification_def fetches_append)
    qed
  qed
qed

lemma sortByUnitPrice_overwrites:
  "sortByUnitPrice asc (st\<lparr>currentSortState := s\<rparr>) = sortByUnitPrice asc st"
  by (simp add: sortByUnitPrice_def)

lemma global_without_pagination:
  assumes "\<not> hasPagination (document st)"
  shows "sortByUnitPriceGlobally asc st = Some (sortByUnitPrice asc st)"
  using assms by (simp add: sortByUnitPriceGlobally_def sortByUnitPrice_overwrites)

text \<open>
  Claim C6. When no pagination link has a text that trims to a string of digits, the global
  sort is the local sort with the same direction flag: it ends in the same state, and it
  fetches no page.
\<close>

theorem global_degrades_to_local:
  "\<not> hasPagination (document st) \<longrightarrow>
     sortByUnitPriceGlobally asc st = Some (sortByUnitPrice asc st) \<and>
     fetches (effects (sortByUnitPrice asc st)) = fetches (effects st)"
  using global_without_pagination [of st asc] fetches_sortByUnitPrice [of asc st] by simp

theorem global_degrades_to_local_witness:
  "\<not> hasPagination (document singlePageState) \<and>
   sortByUnitPriceGlobally True singlePageState = Some (sortByUnitPrice True singlePageState) \<and>
   fetches (effects (sortByUnitPrice True singlePageState)) = []"
proof -
  have "\<not> hasPagination singlePage" by code_simp
  then have none: "\<not> hasPagination (document singlePageState)"
    by (simp add: singlePageState_def initialState_def)
  have "fetches (effects singlePageState) = []"
    by (simp add: singlePageState_def initialState_def)
  with global_degrades_to_local [of singlePageState True] none show ?thesis
    by simp
qed


section \<open>Entering the watching state\<close>

lemma setupSortMaintainer_installs:
  "\<exists>tm ob.
     sortMaintainerInterval (setupSortMaintainer container st) = Some tm \<and>
     (tm, container) \<in> set (intervals (setupSortMaintainer container st)) \<and>
     containerObserver (setupSortMaintainer container st) = Some ob \<and>
     (ob, container) \<in> set (observers (setupSortMaintainer container st))"
  by (simp add: setupSortMaintainer_def Let_def clearInterval_def disconnect_def
      split: option.splits)

lemma observer_schedules_resort:
  assumes "currentSortState st = Some s" "(ob, container) \<in> set (observers st)"
    "mutationType m = ChildList" "0 < addedNodes m \<or> 0 < removedNodes m"
  shows "react TimeoutFires (react (ObserverDelivers ob [m]) st) = sortByUnitPrice (ascending s) st"
proof -
  from assms(2) obtain c where "map_of (observers st) ob = Some c"
    by (metis weak_map_of_SomeI)
  with assms(1,3,4) have "react (ObserverDelivers ob [m]) st = st\<lparr>timeouts := Suc (timeouts st)\<rparr>"
    by (simp add: react_def observerCallback_def)
  moreover have "sortByUnitPrice asc (st\<lparr>timeouts := n\<rparr>) =
      (sortByUnitPrice asc st)\<lparr>timeouts := n\<rparr>" for asc n
    by (simp add: sortByUnitPrice_def Let_def alert_def throw_def showNotification_def
        injectSortStyles_def setupSortMaintainer_def clearInterval_def disconnect_def
        split: sum.splits list.splits option.splits prod.splits)
  ultimately show ?thesis
    using assms(1)
    by (simp add: react_def resortTimeout_def)
qed


text \<open>
  Claim C7, as the code has it. A sort that reaches the rank assignment, that is a local
  sort, or a global sort on a page without pagination, whose locator finds cards the first
  of which has a parent element, ends with the sort state set and with a mutation observer
  and a 200 ms timer installed on the container; when the observer then reports a child
  list change with an added or removed node, the re-sort timeout runs \<open>sortByUnitPrice\<close>
  again with the same direction.
\<close>

theorem ranked_sort_enters_watching:
  assumes "getProductCards (document st) = Inr (first # rest)"
    and "parentElement (document st) first = Some container"
  shows "\<exists>tm ob.
     currentSortState (sortByUnitPrice asc st) = Some \<lparr>ascending = asc, global = False\<rparr> \<and>
     sortMaintainerInterval (sortByUnitPrice asc st) = Some tm \<and>
     (tm, container) \<in> set (intervals (sortByUnitPrice asc st)) \<and>
     containerObserver (sortByUnitPrice asc st) = Some ob \<and>
     (ob, container) \<in> set (observers (sortByUnitPrice asc st)) \<and>
     (\<forall>m. mutationType m = ChildList \<and> (0 < addedNodes m \<or> 0 < removedNodes m) \<longrightarrow>
        react TimeoutFires (react (ObserverDelivers ob [m]) (sortByUnitPrice asc st)) =
          sortByUnitPrice asc (sortByUnitPrice asc st)) \<and>
     (\<not> hasPagination (document st) \<longrightarrow>
        sortByUnitPriceGlobally asc st = Some (sortByUnitPrice asc st))"
proof -
  define st1 where "st1 = st\<lparr>currentSortState := Some \<lparr>ascending = asc, global = False\<rparr>,
      document := mapElements
        (\<lambda>j e. marksOn container (document st)
           (zip (sortProducts asc (extractProducts (document st) (first # rest)))
                [0..<Suc (length rest)]) j
           (if j = container then ensureFlex e else e)) (document st),
      sortStyles := Some (rulesOf container (document st)
        (zip (sortProducts asc (extractProducts (document st) (first # rest)))
             [0..<Suc (length rest)]))\<rparr>"
  define st2 where "st2 = setupSortMaintainer container st1"
  have result: "sortByUnitPrice asc st = showNotification (SortedByUnitPrice asc) st2"
    unfolding st2_def st1_def by (rule sortByUnitPrice_ranked [OF assms])
  from setupSortMaintainer_installs [of container st1]
  obtain tm ob where installed: "sortMaintainerInterval st2 = Some tm"
    "(tm, container) \<in> set (intervals st2)" "containerObserver st2 = Some ob"
    "(ob, container) \<in> set (observers st2)"
    unfolding st2_def by blast
  have state: "currentSortState (sortByUnitPrice asc st) =
      Some \<lparr>ascending = asc, global = False\<rparr>"
    by (simp add: result showNotification_def st2_def st1_def)
  have obs: "(ob, container) \<in> set (observers (sortByUnitPrice asc st))"
    using installed by (simp add: result showNotification_def)
  have resort: "react TimeoutFires (react (ObserverDelivers ob [m]) (sortByUnitPrice asc st)) =
      sortByUnitPrice asc (sortByUnitPrice asc st)"
    if "mutationType m = ChildList \<and> (0 < addedNodes m \<or> 0 < removedNodes m)" for m
    using observer_schedules_resort [OF state obs, of m] that by simp
  have "sortMaintainerInterval (sortByUnitPrice asc st) = Some tm \<and>
     (tm, container) \<in> set (intervals (sortByUnitPrice asc st)) \<and>
     containerObserver (sortByUnitPrice asc st) = Some ob"
    using installed by (simp add: result showNotification_def)
  with state obs resort global_without_pagination [of st asc] show ?thesis
    by blast
qed

theorem ranked_sort_enters_watching_witness:
  "getProductCards (document singlePageState) = Inr [6, 7, 8] \<and>
   parentElement (document singlePageState) 6 = Some 5 \<and>
   currentSortState (sortByUnitPrice True singlePageState) =
     Some \<lparr>ascending = True, global = False\<rparr> \<and>
   sortMaintainerInterval (sortByUnitPrice True singlePageState) = Some 2 \<and>
   intervals (sortByUnitPrice True singlePageState) = [(2, 5)] \<and>
   containerObserver (sortByUnitPrice True singlePageState) = Some 1 \<and>
   observers (sortByUnitPrice True singlePageState) = [(1, 5)] \<and>
   react TimeoutFires (react (ObserverDelivers 1
       [\<lparr>mutationType = ChildList, addedNodes = 1, removedNodes = 0\<rparr>])
       (sortByUnitPrice True singlePageState)) =
     sortByUnitPrice True (sortByUnitPrice True singlePageState)"
proof -
  have cards: "getProductCards (document singlePageState) = Inr (6 # [7, 8])"
    unfolding singlePageState_def initialState_def by code_simp
  have parent: "parentElement (document singlePageState) 6 = Some 5"
    unfolding singlePageState_def initialState_def by code_simp
  let ?m = "\<lparr>mutationType = ChildList, addedNodes = 1, removedNodes = 0\<rparr>"
  from ranked_sort_enters_watching [OF cards parent, of True]
  obtain tm ob where w: "sortMaintainerInterval (sortByUnitPrice True singlePageState) = Some tm"
    "containerObserver (sortByUnitPrice True singlePageState) = Some ob"
    "mutationType ?m = ChildList \<and> (0 < addedNodes ?m \<or> 0 < removedNodes ?m) \<longrightarrow>
        react TimeoutFires (react (ObserverDelivers ob [?m]) (sortByUnitPrice True singlePageState)) =
          sortByUnitPrice True (sortByUnitPrice True singlePageState)"
    by blast
  from w(1,2) have "tm = 2" "ob = 1"
    by (simp_all add: example_sorted_single sortedSinglePageState_def)
  with w(3) cards parent show ?thesis
    by (simp add: example_sorted_single sortedSinglePageState_def)
qed

section \<open>The global sort over several pages installs nothing\<close>

lemma example_pages:
  "map page (concat (map (productsOnPage exampleState) [1, 2])) = [1, 1, 2, 2] \<and>
   map unitPrice (concat (map (productsOnPage exampleState) [1, 2])) =
     [Some (Num (1 / 2)), Some (roundFraction 2 10), Some (roundFraction 3 10), None] \<and>
   map unitPrice (sortedAll True (concat (map (productsOnPage exampleState) [1, 2]))) =
     [Some (roundFraction 2 10), Some (roundFraction 3 10), Some (Num (1 / 2)), None]"
  by code_simp

lemma example_global:
  "sortByUnitPriceGlobally True exampleState =
     Some (showNotification (ShownAll 4 True)
       (hidePagination
          (replaceCurrentPageProducts
             (sortedAll True (concat (map (productsOnPage exampleState) [1, 2])))
             (exampleState\<lparr>currentSortState := Some \<lparr>ascending = True, global = True\<rparr>,
                effects := effects exampleState @ [Notification LoadingAllPages, Fetch 2],
                allProductsData := concat (map (productsOnPage exampleState) [1, 2])\<rparr>))))"
proof -
  have "hasPagination examplePage1" by code_simp
  then have pagination: "hasPagination (document exampleState)"
    by (simp add: exampleState_def initialState_def)
  have "maxPageOf examplePage1 = Num 2" by code_simp
  then have maxPage: "maxPageOf (document exampleState) = Num 2"
    by (simp add: exampleState_def initialState_def)
  from example_pages
  have "length (map page (concat (map (productsOnPage exampleState) [1, 2]))) =
      length [1, 1, 2, 2 :: nat]"
    by (simp only:)
  then have len: "length (concat (map (productsOnPage exampleState) [1, 2])) = 4"
    by (simp only: length_map) simp
  then have nonempty: "concat (map (productsOnPage exampleState) [1, 2]) \<noteq> []"
    by auto
  from global_two_pages [OF pagination maxPage refl, of True] show ?thesis
    by (simp only: nonempty len if_False)
qed

lemma example_root_card:
  "getProductCards rootCardPage = Inr [0] \<and> parentElement rootCardPage 0 = None \<and>
   sortByUnitPrice True (initialState rootCardPage []) =
     (initialState rootCardPage [])
       \<lparr>currentSortState := Some \<lparr>ascending = True, global = False\<rparr>\<rparr>"
  by code_simp

text \<open>
  The claim as the specification words it, for every sort, local or global, fails: on a page
  with pagination the locator finds the two cards of the page, the global sort collects the
  four products of both pages and replaces the content of the page, and it returns with no
  timer and no observer. It fails for a local sort too when the first card that the
  locator finds is the root element, which has no parent element: the sort returns at its
  guard, with no rank assigned and no timer and no observer.
\<close>

theorem global_sort_not_watching_counterexample:
  "getProductCards (document exampleState) = Inr [6, 7] \<and>
   map_option (length \<circ> allProductsData) (sortByUnitPriceGlobally True exampleState) =
     Some 4 \<and>
   map_option sortMaintainerInterval (sortByUnitPriceGlobally True exampleState) = Some None \<and>
   map_option containerObserver (sortByUnitPriceGlobally True exampleState) = Some None \<and>
   map_option intervals (sortByUnitPriceGlobally True exampleState) = Some [] \<and>
   map_option observers (sortByUnitPriceGlobally True exampleState) = Some [] \<and>
   getProductCards (document (initialState rootCardPage [])) = Inr [0] \<and>
   intervals (sortByUnitPrice True (initialState rootCardPage [])) = [] \<and>
   observers (sortByUnitPrice True (initialState rootCardPage [])) = [] \<and>
   sortStyles (sortByUnitPrice True (initialState rootCardPage [])) = None"
proof -
  have root: "getProductCards (document (initialState rootCardPage [])) = Inr [0] \<and>
   intervals (sortByUnitPrice True (initialState rootCardPage [])) = [] \<and>
   observers (sortByUnitPrice True (initialState rootCardPage [])) = [] \<and>
   sortStyles (sortByUnitPrice True (initialState rootCardPage [])) = None"
    using example_root_card by (simp add: initialState_def)
  have cards: "getProductCards (document exampleState) = Inr [6, 7]"
    unfolding exampleState_def initialState_def by code_simp
  from example_pages
  have "length (map page (concat (map (productsOnPage exampleState) [1, 2]))) =
      length [1, 1, 2, 2 :: nat]"
    by (simp only:)
  then have len: "length (concat (map (productsOnPage exampleState) [1, 2])) = 4"
    by (simp only: length_map) simp
  have "map_option (length \<circ> allProductsData)
      (sortByUnitPriceGlobally True exampleState) = Some 4"
    using len
    by (simp add: example_global showNotification_def hidePagination_def
        replaceCurrentPageProducts_monitoring)
  moreover have "map_option sortMaintainerInterval (sortByUnitPriceGlobally True exampleState) =
      Some None \<and>
    map_option containerObserver (sortByUnitPriceGlobally True exampleState) = Some None \<and>
    map_option intervals (sortByUnitPriceGlobally True exampleState) = Some [] \<and>
    map_option observers (sortByUnitPriceGlobally True exampleState) = Some []"
    unfolding example_global
    by (simp add: showNotification_def hidePagination_def
        replaceCurrentPageProducts_monitoring exampleState_def initialState_def)
  ultimately show ?thesis using cards root by simp
qed


section \<open>Clearing the sort\<close>

lemma fold_removeClass:
  "fold (\<lambda>cls e'. if P cls then removeClass cls e' else e') xs e =
     e\<lparr>classList := filter (\<lambda>c. \<not> (P c \<and> c \<in> set xs)) (classList e)\<rparr>"
proof (induction xs arbitrary: e)
  case Nil
  show ?case by simp
next
  case (Cons x xs)
  have "filter (\<lambda>c. \<not> (P c \<and> c \<in> set xs)) (filter (\<lambda>y. x \<noteq> y) (classList e)) =
      filter (\<lambda>c. \<not> (P c \<and> c \<in> set (x # xs))) (classList e)" if "P x"
    using that by (auto intro: filter_cong)
  moreover have "filter (\<lambda>c. \<not> (P c \<and> c \<in> set xs)) (classList e) =
      filter (\<lambda>c. \<not> (P c \<and> c \<in> set (x # xs))) (classList e)" if "\<not> P x"
    using that by (auto intro: filter_cong)
  ultimately show ?case
    by (simp add: Cons removeClass_def removeAll_filter_not_eq)
qed

lemma unmark_filter:
  "unmark e = e\<lparr>classList := filter (\<lambda>c. c \<noteq> ''konzum-sorted'' \<and> \<not> startsWith c ''konzum-sort-'')
      (classList e)\<rparr>"
  by (simp add: unmark_def Let_def fold_removeClass removeClass_def removeAll_filter_not_eq)
    (rule arg_cong [where f = "\<lambda>cl. e\<lparr>classList := cl\<rparr>"], rule filter_cong, auto)

lemma unmark_idem: "unmark (unmark e) = unmark e"
  by (simp add: unmark_filter)

lemma funpow_unmark: "(unmark ^^ n) e = (if n = 0 then e else unmark e)"
  by (induction n) (simp_all add: unmark_idem)

lemma fold_updateElement:
  "fold (\<lambda>c. updateElement c f) cs d = mapElements (\<lambda>j e. (f ^^ count_list cs j) e) d"
proof (induction cs arbitrary: d)
  case Nil
  show ?case by (simp add: mapElements_id)
next
  case (Cons c cs)
  have "fold (\<lambda>c. updateElement c f) (c # cs) d =
      mapElements (\<lambda>j e. (f ^^ count_list cs j) e) (updateElement c f d)"
    by (simp add: Cons)
  also have "\<dots> = mapElements (\<lambda>j e. (f ^^ count_list cs j) (if j = c then f e else e)) d"
    by (simp add: updateElement_def mapElements_comp)
  also have "\<dots> = mapElements (\<lambda>j e. (f ^^ count_list (c # cs) j) e) d"
    by (rule mapElements_cong) (simp add: funpow_swap1)
  finally show ?case .
qed

lemma document_clearSort:
  "document (clearSort st) =
     mapElements
       (\<lambda>j e. if j \<in> set (querySelectorAll (document st) [Compound [Class ''konzum-sorted'']])
              then unmark e else e)
       (document st)"
proof -
  have "document (clearSort st) =
      fold (\<lambda>c. updateElement c unmark)
        (querySelectorAll (document st) [Compound [Class ''konzum-sorted'']]) (document st)"
    by (simp add: clearSort_def Let_def clearInterval_def split: option.splits)
  also have "\<dots> = mapElements
       (\<lambda>j e. if j \<in> set (querySelectorAll (document st) [Compound [Class ''konzum-sorted'']])
              then unmark e else e)
       (document st)"
    unfolding fold_updateElement
    by (rule mapElements_cong) (simp add: funpow_unmark count_list_0_iff)
  finally show ?thesis .
qed

lemma querySelectorAll_class:
  assumes "(i, e) \<in> set (elementsOf d)" "c \<in> set (classList e)"
  shows "i \<in> set (querySelectorAll d [Compound [Class c]])"
proof -
  from assms(1) obtain cs ancestors where "(i, e, cs, ancestors) \<in> set (walk [] d)"
    by (auto simp add: elementsOf_def)
  moreover from assms(2) have "matches (i, e, cs, ancestors) [Compound [Class c]]"
    by (simp add: matches_def matchesCompound_def)
  ultimately show ?thesis
    by (force simp add: querySelectorAll_def)
qed

lemma clearSort_fields:
  "currentSortState (clearSort st) = None \<and> sortMaintainerInterval (clearSort st) = None \<and>
   sortStyles (clearSort st) = sortStyles st \<and> observers (clearSort st) = observers st \<and>
   containerObserver (clearSort st) = containerObserver st \<and>
   effects (clearSort st) = effects st \<and>
   intervals (clearSort st) =
     (case sortMaintainerInterval st of
        None \<Rightarrow> intervals st
      | Some h \<Rightarrow> filter (\<lambda>(k, c). k \<noteq> h) (intervals st))"
  by (simp add: clearSort_def Let_def clearInterval_def split: option.splits)

lemma react_inert:
  assumes "currentSortState st = None"
  shows "currentSortState (react ev st) = None \<and> effects (react ev st) = effects st \<and>
    sortStyles (react ev st) = sortStyles st \<and>
    document (react ev st) = rewritten [ev] (document st)"
  using assms
  by (cases ev)
    (simp_all add: react_def verifyOrder_def observerCallback_def resortTimeout_def
      split: option.splits)

lemma run_inert:
  assumes "currentSortState st = None"
  shows "currentSortState (run evs st) = None \<and> effects (run evs st) = effects st \<and>
    sortStyles (run evs st) = sortStyles st \<and>
    document (run evs st) = rewritten evs (document st)"
  using assms
proof (induction evs arbitrary: st)
  case Nil
  then show ?case by (simp add: run_def)
next
  case (Cons ev evs)
  from react_inert [OF Cons.prems, of ev]
  have step: "currentSortState (react ev st) = None" "effects (react ev st) = effects st"
    "sortStyles (react ev st) = sortStyles st"
    "document (react ev st) = rewritten [ev] (document st)"
    by simp_all
  from Cons.IH [OF step(1)] step(2,3,4) show ?case
    by (cases ev) (simp_all add: run_def)
qed

text \<open>
  Claim C8, as the code has it. Choosing another ordering discards the sort state and stops
  the timer whose handle the script holds; every element that carried \<open>konzum-sorted\<close> loses
  that class and its classes \<open>konzum-sort-N\<close>, so that no element of the tree carries
  \<open>konzum-sorted\<close> afterwards. Nothing else is written: the attributes and the inline styles
  of the elements, the injected style rules and the mutation observer stay as they were.
  After that no event of the host (a timer that fires, records that an observer delivers, a
  re-sort timeout that comes due, a rewrite of the tree) makes the script write to the tree,
  show anything or set a sort state again.
\<close>

theorem clear_stops_reapplication:
  "handleChange OtherValue st = Some (clearSort st) \<and>
   currentSortState (clearSort st) = None \<and>
   sortMaintainerInterval (clearSort st) = None \<and>
   (\<forall>h. sortMaintainerInterval st = Some h \<longrightarrow>
      intervals (clearSort st) = filter (\<lambda>(k, c). k \<noteq> h) (intervals st)) \<and>
   document (clearSort st) =
     mapElements
       (\<lambda>j e. if j \<in> set (querySelectorAll (document st) [Compound [Class ''konzum-sorted'']])
              then e\<lparr>classList :=
                filter (\<lambda>c. c \<noteq> ''konzum-sorted'' \<and> \<not> startsWith c ''konzum-sort-'')
                  (classList e)\<rparr>
              else e)
       (document st) \<and>
   (\<forall>(i, e) \<in> set (elementsOf (document (clearSort st))).
      ''konzum-sorted'' \<notin> set (classList e)) \<and>
   sortStyles (clearSort st) = sortStyles st \<and>
   observers (clearSort st) = observers st \<and>
   containerObserver (clearSort st) = containerObserver st \<and>
   (\<forall>evs. currentSortState (run evs (clearSort st)) = None \<and>
      effects (run evs (clearSort st)) = effects st \<and>
      document (run evs (clearSort st)) = rewritten evs (document (clearSort st)))"
proof -
  have doc: "document (clearSort st) =
     mapElements
       (\<lambda>j e. if j \<in> set (querySelectorAll (document st) [Compound [Class ''konzum-sorted'']])
              then e\<lparr>classList :=
                filter (\<lambda>c. c \<noteq> ''konzum-sorted'' \<and> \<not> startsWith c ''konzum-sort-'')
                  (classList e)\<rparr>
              else e)
       (document st)"
    unfolding document_clearSort by (rule mapElements_cong) (simp add: unmark_filter)
  have unmarked: "\<forall>(i, e) \<in> set (elementsOf (document (clearSort st))).
      ''konzum-sorted'' \<notin> set (classList e)"
    unfolding doc elementsOf_mapElements
    using querySelectorAll_class [of _ _ "document st" "''konzum-sorted''"]
    by (auto split: if_splits)
  have inert: "currentSortState (run evs (clearSort st)) = None \<and>
      effects (run evs (clearSort st)) = effects st \<and>
      document (run evs (clearSort st)) = rewritten evs (document (clearSort st))" for evs
    using run_inert [of "clearSort st" evs] clearSort_fields [of st] by simp
  have "handleChange OtherValue st = Some (clearSort st)"
    by (simp add: handleChange_def)
  with doc unmarked inert clearSort_fields [of st] show ?thesis
    by simp
qed

text \<open>
  The claim as the specification words it, with all attributes, all derived style rules and
  all observers, fails: after a local sort of a page with three cards and a change of the
  dropdown to another ordering, the first card still has its \<open>data-sort-order\<close>, its
  \<open>data-unit-price\<close> and its inline \<open>order\<close> (it has lost only its two classes), the three
  injected rules are still there, and the observer is still connected.
\<close>

theorem clear_keeps_attributes_counterexample:
  "handleChange OtherValue (sortByUnitPrice True singlePageState) =
     Some (clearSort sortedSinglePageState) \<and>
   elementOf (document (clearSort sortedSinglePageState)) 6 =
     Some \<lparr>namespace = HTML, tagName = ''ARTICLE'', classList = [''product-item''],
        attributes = [(''data-sort-order'', Str ''1''),
                      (''data-unit-price'', StringOf (Num (1 / 2)))],
        style = [(''order'', ''1'', True)], cascadedOrder = ''0''\<rparr> \<and>
   sortStyles (clearSort sortedSinglePageState) =
     Some [(''konzum-sort-0'', 0), (''konzum-sort-1'', 1), (''konzum-sort-2'', 2)] \<and>
   containerObserver (clearSort sortedSinglePageState) = Some 1 \<and>
   observers (clearSort sortedSinglePageState) = [(1, 5)]"
proof -
  have "elementOf (document (clearSort sortedSinglePageState)) 6 =
      Some \<lparr>namespace = HTML, tagName = ''ARTICLE'', classList = [''product-item''],
        attributes = [(''data-sort-order'', Str ''1''),
                      (''data-unit-price'', StringOf (Num (1 / 2)))],
        style = [(''order'', ''1'', True)], cascadedOrder = ''0''\<rparr>"
    by code_simp
  moreover have "sortStyles (clearSort sortedSinglePageState) =
      Some [(''konzum-sort-0'', 0), (''konzum-sort-1'', 1), (''konzum-sort-2'', 2)] \<and>
     containerObserver (clearSort sortedSinglePageState) = Some 1 \<and>
     observers (clearSort sortedSinglePageState) = [(1, 5)]"
    by code_simp
  moreover have "handleChange OtherValue (sortByUnitPrice True singlePageState) =
     Some (clearSort sortedSinglePageState)"
    by (simp add: handleChange_def example_sorted_single)
  ultimately show ?thesis by simp
qed

theorem clear_stops_reapplication_witness:
  "sortMaintainerInterval sortedSinglePageState = Some 2 \<and>
   intervals (clearSort sortedSinglePageState) = [] \<and>
   querySelectorAll (document (clearSort sortedSinglePageState))
     [Compound [Class ''konzum-sorted'']] = [] \<and>
   currentSortState (run [TimerFires 2, HostRewrites singlePage,
       ObserverDelivers 1 [\<lparr>mutationType = ChildList, addedNodes = 1, removedNodes = 0\<rparr>],
       TimeoutFires, TimerFires 2] (clearSort sortedSinglePageState)) = None \<and>
   document (run [TimerFires 2, HostRewrites singlePage,
       ObserverDelivers 1 [\<lparr>mutationType = ChildList, addedNodes = 1, removedNodes = 0\<rparr>],
       TimeoutFires, TimerFires 2] (clearSort sortedSinglePageState)) = singlePage"
proof -
  let ?evs = "[TimerFires 2, HostRewrites singlePage,
       ObserverDelivers 1 [\<lparr>mutationType = ChildList, addedNodes = 1, removedNodes = 0\<rparr>],
       TimeoutFires, TimerFires 2]"
  have handle: "sortMaintainerInterval sortedSinglePageState = Some 2"
    by (simp add: sortedSinglePageState_def)
  have none: "querySelectorAll (document (clearSort sortedSinglePageState))
     [Compound [Class ''konzum-sorted'']] = []"
    by code_simp
  from clear_stops_reapplication [of sortedSinglePageState] handle
  have "intervals (clearSort sortedSinglePageState) =
      filter (\<lambda>(k, c). k \<noteq> 2) (intervals sortedSinglePageState)"
    and "currentSortState (run ?evs (clearSort sortedSinglePageState)) = None"
    and "document (run ?evs (clearSort sortedSinglePageState)) =
      rewritten ?evs (document (clearSort sortedSinglePageState))"
    by blast+
  with handle none show ?thesis
    by (simp add: sortedSinglePageState_def)
qed


section \<open>The global sort without a product list container\<close>

text \<open>
  Claim C10. Without an element that has the class \<open>product-list\<close> or a class attribute
  containing \<open>product-list\<close>, \<open>replaceCurrentPageProducts\<close> returns the state as it is: no
  exception, no change of the tree, no alert. A global sort over several pages that found
  products then ends without an alert and with the notification of success, although the
  only change to the tree is that the pagination is hidden.
\<close>

theorem replace_without_container:
  assumes "querySelector (document st) productListSelector = None"
  shows "replaceCurrentPageProducts products st = st \<and>
    (\<forall>asc st'. hasPagination (document st) \<and> sortByUnitPriceGlobally asc st = Some st' \<and>
         allProductsData st' \<noteq> [] \<longrightarrow>
       document st' = document (hidePagination st) \<and>
       alerts (effects st') = alerts (effects st) \<and>
       (\<exists>n. effects st' =
          effects st @ Notification LoadingAllPages # map Fetch [2..<Suc n] @
            [Notification (ShownAll (length (allProductsData st')) asc)]))"
proof -
  have noop: "replaceCurrentPageProducts ps st1 = st1" if "document st1 = document st" for ps st1
    using assms that by (simp add: replaceCurrentPageProducts_def)
  have "document st' = document (hidePagination st) \<and>
       alerts (effects st') = alerts (effects st) \<and>
       (\<exists>n. effects st' =
          effects st @ Notification LoadingAllPages # map Fetch [2..<Suc n] @
            [Notification (ShownAll (length (allProductsData st')) asc)])"
    if pagination: "hasPagination (document st)"
      and returns: "sortByUnitPriceGlobally asc st = Some st'"
      and found: "allProductsData st' \<noteq> []" for asc st'
  proof -
    from global_paginated [OF pagination returns] obtain n allProducts st2
      where allProducts: "allProducts = concat (map (productsOnPage st) [1..<Suc n])"
        and st2: "st2 = st\<lparr>currentSortState := Some \<lparr>ascending = asc, global = True\<rparr>,
                       effects := effects st @ Notification LoadingAllPages # map Fetch [2..<Suc n],
                       allProductsData := allProducts\<rparr>"
        and st': "st' = (if allProducts = [] then alert NothingToSort st2
                     else showNotification (ShownAll (length allProducts) asc)
                            (hidePagination
                               (replaceCurrentPageProducts (sortedAll asc allProducts) st2)))"
      unfolding Let_def by blast
    have "allProducts \<noteq> []"
      using found st' st2 by (auto simp add: alert_def)
    with st' noop [of st2 "sortedAll asc allProducts"] st2
    have result: "st' = showNotification (ShownAll (length allProducts) asc) (hidePagination st2)"
      by simp
    have "document st' = document (hidePagination st)"
      by (simp add: result st2 showNotification_def hidePagination_def)
    moreover have "alerts (effects st') = alerts (effects st)"
      by (simp add: result st2 showNotification_def hidePagination_def alerts_append alerts_Fetch)
    moreover have "effects st' =
          effects st @ Notification LoadingAllPages # map Fetch [2..<Suc n] @
            [Notification (ShownAll (length (allProductsData st')) asc)]"
      by (simp add: result st2 showNotification_def hidePagination_def del: upt_Suc)
    ultimately show ?thesis by blast
  qed
  with noop [of st products] show ?thesis by blast
qed

lemma loose_cards_pages:
  "map page (concat (map (productsOnPage looseCardsState) [1, 2])) = [1, 1, 2, 2]"
  by code_simp

theorem replace_without_container_witness:
  "querySelector (document looseCardsState) productListSelector = None \<and>
   hasPagination (document looseCardsState) \<and>
   replaceCurrentPageProducts
     (sortedAll True (concat (map (productsOnPage looseCardsState) [1, 2])))
     looseCardsState = looseCardsState \<and>
   map_option (\<lambda>st. length (allProductsData st))
     (sortByUnitPriceGlobally True looseCardsState) = Some 4 \<and>
   map_option document (sortByUnitPriceGlobally True looseCardsState) =
     Some (document (hidePagination looseCardsState)) \<and>
   map_option (\<lambda>st. alerts (effects st)) (sortByUnitPriceGlobally True looseCardsState) =
     Some [] \<and>
   map_option effects (sortByUnitPriceGlobally True looseCardsState) =
     Some [Notification LoadingAllPages, Fetch 2, Notification (ShownAll 4 True)]"
proof -
  define every where "every = concat (map (productsOnPage looseCardsState) [1, 2])"
  define st2 where
    "st2 = looseCardsState\<lparr>currentSortState := Some \<lparr>ascending = True, global = True\<rparr>,
       effects := effects looseCardsState @ [Notification LoadingAllPages, Fetch 2],
       allProductsData := every\<rparr>"
  define st' where "st' = showNotification (ShownAll 4 True)
      (hidePagination (replaceCurrentPageProducts (sortedAll True every) st2))"
  have none: "querySelector (document looseCardsState) productListSelector = None"
    unfolding looseCardsState_def initialState_def by code_simp
  have "hasPagination looseCardsPage" by code_simp
  then have pagination: "hasPagination (document looseCardsState)"
    by (simp add: looseCardsState_def initialState_def)
  have "maxPageOf looseCardsPage = Num 2" by code_simp
  then have maxPage: "maxPageOf (document looseCardsState) = Num 2"
    by (simp add: looseCardsState_def initialState_def)
  from loose_cards_pages
  have "length (map page every) = length [1, 1, 2, 2 :: nat]"
    unfolding every_def by (simp only:)
  then have len: "length every = 4"
    by (simp only: length_map) simp
  then have nonempty: "every \<noteq> []" by auto
  from global_two_pages [OF pagination maxPage refl, of True]
  have returns: "sortByUnitPriceGlobally True looseCardsState = Some st'"
    unfolding every_def [symmetric] st2_def [symmetric] st'_def
    by (simp only: nonempty len if_False)
  have data: "allProductsData st' = every"
    by (simp add: st'_def st2_def showNotification_def hidePagination_def
        replaceCurrentPageProducts_monitoring)
  have log: "effects st' =
      [Notification LoadingAllPages, Fetch 2, Notification (ShownAll 4 True)]"
    by (simp add: st'_def st2_def showNotification_def hidePagination_def
        replaceCurrentPageProducts_monitoring looseCardsState_def initialState_def)
  from data nonempty have found: "allProductsData st' \<noteq> []" by simp
  from replace_without_container [OF none, of "sortedAll True every"] pagination returns found
  have "replaceCurrentPageProducts (sortedAll True every) looseCardsState = looseCardsState"
    and "document st' = document (hidePagination looseCardsState)"
    and "alerts (effects st') = alerts (effects looseCardsState)"
    by blast+
  moreover have "alerts (effects looseCardsState) = []"
    by (simp add: looseCardsState_def initialState_def)
  ultimately show ?thesis
    using none pagination data len log
    unfolding every_def [symmetric] returns by simp
qed

section \<open>The order of the global sort\<close>









section \<open>Nothing to sort\<close>















text \<open>
  The exception of the locator, on the page whose only product link is an SVG link inside
  an \<open>svg\<close> element: the walk from the link reads \<open>className\<close> of the \<open>svg\<close> element. The
  local sort then sets the sort state and shows nothing.
\<close>

lemma svg_link_throws:
  "getProductCards svgLinkPage = Inl TypeError \<and>
   sortByUnitPrice True svgLinkState =
     svgLinkState\<lparr>currentSortState := Some \<lparr>ascending = True, global = False\<rparr>,
       effects := [Uncaught TypeError]\<rparr>"
  by code_simp


end
